theory Spec2Isabelle
  imports Complex_Main "HOL-Library.Multiset"
begin


section \<open>Strings\<close>

text \<open>
  Cells, tokens and column names are Python \<open>str\<close> values, modelled as \<open>string\<close>.
  The model covers ASCII text: the white space of \<open>str.strip()\<close> and of the regular
  expression class \<open>\s\<close> is the ASCII white space of CPython (code points 9 to 13, 28 to 31
  and 32), and \<open>str.upper()\<close> maps the letters \<open>a\<close> to \<open>z\<close> to \<open>A\<close> to \<open>Z\<close> and leaves
  every other character alone.
\<close>

definition isspace :: "char \<Rightarrow> bool" where
  "isspace c = (c \<in> {CHR 0x09, CHR 0x0A, CHR 0x0B, CHR 0x0C, CHR 0x0D,
                     CHR 0x1C, CHR 0x1D, CHR 0x1E, CHR 0x1F, CHR 0x20})"

definition strip :: "string \<Rightarrow> string" where
  "strip s = rev (dropWhile isspace (rev (dropWhile isspace s)))"

definition upper_char :: "char \<Rightarrow> char" where
  "upper_char c =
     (let n = (of_char c :: nat) in if 97 \<le> n \<and> n \<le> 122 then char_of (n - 32) else c)"

definition upper :: "string \<Rightarrow> string" where
  "upper s = map upper_char s"

definition startswith :: "string \<Rightarrow> char \<Rightarrow> bool" where
  "startswith s c = (case s of [] \<Rightarrow> False | x # _ \<Rightarrow> x = c)"

definition endswith :: "string \<Rightarrow> char \<Rightarrow> bool" where
  "endswith s c = (s \<noteq> [] \<and> last s = c)"

text \<open>\<open>sep.join(xs)\<close>.\<close>

fun join :: "string \<Rightarrow> string list \<Rightarrow> string" where
  "join sep [] = []"
| "join sep [x] = x"
| "join sep (x # y # ys) = x @ sep @ join sep (y # ys)"

text \<open>\<open>needle in haystack\<close> on strings: the needle occurs as a contiguous substring.\<close>

fun is_prefix :: "string \<Rightarrow> string \<Rightarrow> bool" where
  "is_prefix [] ys = True"
| "is_prefix (x # xs) [] = False"
| "is_prefix (x # xs) (y # ys) = (x = y \<and> is_prefix xs ys)"

fun contains :: "string \<Rightarrow> string \<Rightarrow> bool" where
  "contains needle [] = (needle = [])"
| "contains needle (y # ys) = (is_prefix needle (y # ys) \<or> contains needle ys)"

section \<open>Cell tokenizer\<close>

text \<open>
  \<open>re.split(r'\s*,\s*', s)\<close>. A match of the pattern starts at the leftmost position from
  which a run of white space is followed by a comma; it takes that run, the comma and,
  greedily, all the white space after the comma. \<open>sep_matches s\<close> says that a match
  starts at the head of \<open>s\<close>, \<open>after_sep s\<close> is the text after that match. \<open>re_split acc s\<close>
  scans \<open>s\<close> with the characters of the current piece in \<open>acc\<close>, newest first.
\<close>

definition sep_matches :: "string \<Rightarrow> bool" where
  "sep_matches s = startswith (dropWhile isspace s) (CHR '','')"

definition after_sep :: "string \<Rightarrow> string" where
  "after_sep s = dropWhile isspace (tl (dropWhile isspace s))"

function re_split :: "string \<Rightarrow> string \<Rightarrow> string list" where
  "re_split acc [] = [rev acc]"
| "re_split acc (c # cs) =
     (if sep_matches (c # cs) then rev acc # re_split [] (after_sep (c # cs))
      else re_split (c # acc) cs)"
  by pat_completeness auto
termination
proof (relation "measure (\<lambda>(acc, s). length s)")
  show "wf (measure (\<lambda>(acc, s). length s))" by simp
next
  fix acc :: string and c :: char and cs :: string
  assume m: "sep_matches (c # cs)"
  have "dropWhile isspace (c # cs) \<noteq> []"
  proof
    assume e: "dropWhile isspace (c # cs) = []"
    from m have "startswith (dropWhile isspace (c # cs)) (CHR '','')"
      unfolding sep_matches_def .
    then have "startswith [] (CHR '','')" unfolding e .
    then show False by (simp add: startswith_def)
  qed
  then have "length (tl (dropWhile isspace (c # cs))) < length (dropWhile isspace (c # cs))"
    by (cases "dropWhile isspace (c # cs)") auto
  moreover have "length (dropWhile isspace (c # cs)) \<le> length (c # cs)"
    by (rule length_dropWhile_le)
  moreover have "length (after_sep (c # cs)) \<le> length (tl (dropWhile isspace (c # cs)))"
    unfolding after_sep_def by (rule length_dropWhile_le)
  ultimately show "((([] :: string), after_sep (c # cs)), (acc, c # cs)) \<in> measure (\<lambda>(acc, s). length s)"
    by simp
next
  fix acc :: string and c :: char and cs :: string
  show "((c # acc, cs), (acc, c # cs)) \<in> measure (\<lambda>(acc, s). length s)"
    by simp
qed

text \<open>
  \<open>parse_multi_valor\<close> (the same function in \<open>analise_output.py\<close>, \<open>analise_output_sus.py\<close>
  and \<open>gerar_relatorio_analise_cnj.py\<close>). A cell is \<open>None\<close> when pandas read it as NaN.
\<close>

definition parse_multi_valor :: "string option \<Rightarrow> string list" where
  "parse_multi_valor valor_celula =
     (case valor_celula of
        None \<Rightarrow> []
      | Some v \<Rightarrow>
          (let texto_str = strip v in
           if texto_str = [] then []
           else
             (let texto_interno =
                    (if startswith texto_str (CHR ''{'') \<and> endswith texto_str (CHR ''}'')
                     then butlast (tl texto_str) else texto_str)
              in [strip item. item \<leftarrow> re_split [] texto_interno, strip item \<noteq> []])))"

section \<open>Entity classifier\<close>

text \<open>
  \<open>eh_ente_publico\<close>: the two nested loops return at the first keyword found in an
  uppercased token. The keyword set is given as the list of its elements.
\<close>

fun chave_em :: "string list \<Rightarrow> string \<Rightarrow> bool" where
  "chave_em [] natureza_upper = False"
| "chave_em (chave # chaves) natureza_upper =
     (if contains chave natureza_upper then True else chave_em chaves natureza_upper)"

fun alguma_natureza :: "string list \<Rightarrow> string list \<Rightarrow> bool" where
  "alguma_natureza palavras_chave [] = False"
| "alguma_natureza palavras_chave (natureza # resto) =
     (if chave_em palavras_chave (upper natureza) then True
      else alguma_natureza palavras_chave resto)"

definition eh_ente_publico :: "string option \<Rightarrow> string list \<Rightarrow> bool" where
  "eh_ente_publico texto_natjur palavras_chave =
     (case texto_natjur of
        None \<Rightarrow> False
      | Some v \<Rightarrow>
          (let lista_naturezas = parse_multi_valor (Some v) in
           if lista_naturezas = [] then False
           else alguma_natureza palavras_chave lista_naturezas))"

text \<open>
  What every token returned by \<open>parse_multi_valor\<close> looks like: not empty, no white space
  at either end, no comma.
\<close>

definition token_ok :: "string \<Rightarrow> bool" where
  "token_ok t = (t \<noteq> [] \<and> \<not> isspace (hd t) \<and> \<not> isspace (last t) \<and> CHR '','' \<notin> set t)"

text \<open>The number of characters of a text that are neither white space nor commas.\<close>

definition conteudo :: "string \<Rightarrow> nat" where
  "conteudo s = length (filter (\<lambda>c. \<not> isspace c \<and> c \<noteq> CHR '','') s)"

section \<open>Frequency accumulator\<close>

text \<open>
  A row of a chunk maps a column name to its cell; \<open>None\<close> is a cell pandas read as NaN.
  A \<open>Counter\<close> is a dictionary in insertion order: a list of keys with their counts,
  a new key going to the end.
\<close>

type_synonym row = "string \<rightharpoonup> string"

type_synonym counter = "(string \<times> nat) list"

text \<open>\<open>contador[item] += 1\<close>.\<close>

fun counter_inc :: "string \<Rightarrow> counter \<Rightarrow> counter" where
  "counter_inc k [] = [(k, 1)]"
| "counter_inc k ((k', n) # c) =
     (if k = k' then (k', n + 1) # c else (k', n) # counter_inc k c)"

text \<open>\<open>contador[k]\<close> read on a \<open>Counter\<close>: a missing key counts zero.\<close>

definition count_of :: "counter \<Rightarrow> string \<Rightarrow> nat" where
  "count_of c k = (case map_of c k of None \<Rightarrow> 0 | Some n \<Rightarrow> n)"

text \<open>
  The two dictionaries of a scan: \<open>contadores\<close> (column to \<open>Counter\<close>) and, under the name
  \<open>sigilosos\<close>, the dictionary \<open>contagem_sigiloso\<close> (column to number of confidential tokens).
  Both are created with every key the loops read, so they are total functions here.
\<close>

record acumulador =
  contadores :: "string \<Rightarrow> counter"
  sigilosos :: "string \<Rightarrow> nat"

definition acumulador_inicial :: acumulador where
  "acumulador_inicial = \<lparr>contadores = (\<lambda>col. []), sigilosos = (\<lambda>col. 0)\<rparr>"

text \<open>
  The body of the innermost loop of \<open>analisar_frequencias\<close> in
  \<open>gerar_relatorio_analise_cnj.py\<close> and of \<open>analisar_frequencias_entes_publicos\<close>.
\<close>

definition contar_item :: "string \<Rightarrow> acumulador \<Rightarrow> string \<Rightarrow> acumulador" where
  "contar_item coluna ac item =
     (let item_strip_upper = upper (strip item) in
      if item_strip_upper = ''SIGILOSO''
      then ac\<lparr>sigilosos := (sigilosos ac)(coluna := sigilosos ac coluna + 1)\<rparr>
      else if item_strip_upper \<noteq> []
      then ac\<lparr>contadores := (contadores ac)(coluna := counter_inc item (contadores ac coluna))\<rparr>
      else ac)"

text \<open>\<open>chunk[coluna].dropna()\<close>: the cells of a column that are not NaN, in row order.\<close>

definition col_data :: "row list \<Rightarrow> string \<Rightarrow> string list" where
  "col_data chunk coluna = List.map_filter (\<lambda>linha. linha coluna) chunk"

text \<open>One column of one chunk: the cells are tokenized and every token is counted.\<close>

definition contar_coluna :: "row list \<Rightarrow> acumulador \<Rightarrow> string \<Rightarrow> acumulador" where
  "contar_coluna chunk_processar ac coluna =
     (let dados = col_data chunk_processar coluna in
      if dados \<noteq> []
      then (let items_parsed = map (\<lambda>v. parse_multi_valor (Some v)) dados
            in foldl (\<lambda>a lista_items. foldl (contar_item coluna) a lista_items) ac items_parsed)
      else ac)"

text \<open>
  One pass of the chunk loop. \<open>filtro\<close> is the filter column when the entity filter is
  active. A chunk without rows after filtering is skipped. Otherwise the columns are counted
  and the loop body ends with \<open>del chunk, chunk_processar, col_data, items_parsed\<close>: the name
  \<open>items_parsed\<close> is bound only under \<open>if not col_data.empty\<close>, and \<open>col_data\<close> only when a
  column is visited, so when no visited column of the chunk has a cell that is not NaN the
  \<open>del\<close> statement raises \<open>UnboundLocalError\<close>, here \<open>None\<close>. Both names are unbound at the
  start of every pass, since every pass that binds them deletes them.
\<close>

definition processar_chunk ::
  "string option \<Rightarrow> string list \<Rightarrow> string list \<Rightarrow> acumulador \<Rightarrow> row list \<Rightarrow> acumulador option"
where
  "processar_chunk filtro palavras_chave colunas ac chunk =
     (let chunk_processar =
            (case filtro of
               None \<Rightarrow> chunk
             | Some coluna_filtro \<Rightarrow>
                 filter (\<lambda>linha. eh_ente_publico (linha coluna_filtro) palavras_chave) chunk)
      in if chunk_processar = [] then Some ac
         else if list_ex (\<lambda>coluna. col_data chunk_processar coluna \<noteq> []) colunas
         then Some (foldl (contar_coluna chunk_processar) ac colunas)
         else None)"

text \<open>The loop over the chunks; an exception in one pass ends the loop.\<close>

fun para_cada_chunk ::
  "('s \<Rightarrow> row list \<Rightarrow> 's option) \<Rightarrow> 's \<Rightarrow> row list list \<Rightarrow> 's option"
where
  "para_cada_chunk passo ac [] = Some ac"
| "para_cada_chunk passo ac (chunk # chunks) =
     (case passo ac chunk of None \<Rightarrow> None | Some ac' \<Rightarrow> para_cada_chunk passo ac' chunks)"

text \<open>
  The chunks that \<open>pd.read_csv(..., chunksize=n)\<close> yields for the rows of a file: runs of
  \<open>n\<close> consecutive rows, the last one possibly shorter, none for a file without rows.
\<close>

function chunks_of :: "nat \<Rightarrow> 'a list \<Rightarrow> 'a list list" where
  "chunks_of n xs = (if n = 0 \<or> xs = [] then [] else take n xs # chunks_of n (drop n xs))"
  by pat_completeness auto
termination
  by (relation "measure (\<lambda>(n, xs). length xs)") auto

declare chunks_of.simps [simp del]

section \<open>Aggregation driver\<close>

text \<open>
  A source file: whether the path exists, the header (\<open>None\<close> when reading it raises), and
  the rows that pandas parses from the file.
\<close>

record csv_source =
  existe :: bool
  cabecalho :: "string list option"
  linhas :: "row list"

text \<open>
  The messages the scans log at level error, in the order of the calls; the messages at the
  other levels are left out. Every path that returns \<open>None\<close> logs one of them.
\<close>

datatype log_msg =
  ArquivoNaoEncontrado
  | ErroCabecalho
  | NenhumaColunaAnalise
  | ColunaFiltroNaoEncontrada
  | ColunasEssenciaisNaoEncontradas
  | ErroInesperado

text \<open>
  The value stored for one column: the dictionary with the keys \<open>contagens\<close>,
  \<open>total_ocorrencias\<close> and \<open>contagem_sigiloso\<close>. \<open>contagens\<close> is \<open>None\<close> for a dictionary
  without that key, which \<open>formatar_tabela_analise\<close> accepts.
\<close>

record resultado_coluna =
  contagens :: "counter option"
  total_ocorrencias :: nat
  contagem_sigiloso :: nat

definition resultado_vazio :: resultado_coluna where
  "resultado_vazio = \<lparr>contagens = Some [], total_ocorrencias = 0, contagem_sigiloso = 0\<rparr>"

text \<open>
  \<open>pd.Series(contador).sort_values(ascending=False)\<close> sorts by count with the default
  sort kind, which leaves the order of equal counts to the library. The scans therefore
  take the sort as the parameter \<open>ordenar\<close>. \<open>ordenar_desc\<close> is one such sort, keeping
  equal counts in insertion order; it is used where a concrete run is evaluated.
\<close>

fun inserir_desc :: "string \<times> nat \<Rightarrow> counter \<Rightarrow> counter" where
  "inserir_desc x [] = [x]"
| "inserir_desc x (y # ys) = (if snd y \<le> snd x then x # y # ys else y # inserir_desc x ys)"

definition ordenar_desc :: "counter \<Rightarrow> counter" where
  "ordenar_desc c = foldr inserir_desc c []"

text \<open>The packaging of one present column after the loop (lines 150 to 153).\<close>

definition finalizar :: "(counter \<Rightarrow> counter) \<Rightarrow> acumulador \<Rightarrow> string \<Rightarrow> resultado_coluna" where
  "finalizar ordenar ac coluna =
     (let contador = contadores ac coluna;
          sigs = sigilosos ac coluna;
          total_ocorrencias_geral = sum_list (map snd contador) + sigs
      in if total_ocorrencias_geral = 0 then resultado_vazio
         else \<lparr>contagens = Some (ordenar contador),
               total_ocorrencias = total_ocorrencias_geral,
               contagem_sigiloso = sigs\<rparr>)"

text \<open>
  \<open>resultados_finais\<close>: the loop over \<open>colunas_analise\<close> that stores one entry per column,
  the empty entry for a column that fails the test \<open>presente\<close>.
\<close>

definition montar_resultados ::
  "(counter \<Rightarrow> counter) \<Rightarrow> acumulador \<Rightarrow> (string \<Rightarrow> bool) \<Rightarrow> string list
     \<Rightarrow> (string \<rightharpoonup> resultado_coluna)"
where
  "montar_resultados ordenar ac presente colunas =
     foldl (\<lambda>resultados coluna.
              resultados(coluna \<mapsto>
                (if \<not> presente coluna then resultado_vazio else finalizar ordenar ac coluna)))
       Map.empty colunas"

text \<open>
  \<open>analisar_frequencias\<close> of \<open>gerar_relatorio_analise_cnj.py\<close>. \<open>chunksize\<close> stands for the
  constant \<open>CHUNKSIZE_ANALISE\<close>; pandas raises for a chunk size of zero. With the filter
  requested and a filter column that is \<open>None\<close> or empty, the column list handed to pandas
  holds that value and the read raises. The result is the log and the returned value.
\<close>

definition analisar_frequencias ::
  "(counter \<Rightarrow> counter) \<Rightarrow> nat \<Rightarrow> csv_source \<Rightarrow> string list \<Rightarrow> bool \<Rightarrow> string option
     \<Rightarrow> string list \<Rightarrow> log_msg list \<times> (string \<rightharpoonup> resultado_coluna) option"
where
  "analisar_frequencias ordenar chunksize csv colunas_analise filtrar_por_ente_publico
       coluna_filtro_ente palavras_chave_entes =
     (if \<not> existe csv then ([ArquivoNaoEncontrado], None)
      else case cabecalho csv of
        None \<Rightarrow> ([ErroCabecalho], None)
      | Some colunas_presentes \<Rightarrow>
          (let colunas_analise_existentes =
                 filter (\<lambda>col. col \<in> set colunas_presentes) colunas_analise;
               falsy = (coluna_filtro_ente = None \<or> coluna_filtro_ente = Some []);
               coluna_filtro_ente_existe =
                 (case coluna_filtro_ente of
                    None \<Rightarrow> True
                  | Some f \<Rightarrow> if f = [] then True else f \<in> set colunas_presentes)
           in if colunas_analise_existentes = [] then ([NenhumaColunaAnalise], None)
              else
                (let log = (if filtrar_por_ente_publico \<and> \<not> coluna_filtro_ente_existe
                            then [ColunaFiltroNaoEncontrada] else []);
                     filtrar = (filtrar_por_ente_publico \<and> coluna_filtro_ente_existe)
                 in if chunksize = 0 \<or> (filtrar \<and> falsy) then (log @ [ErroInesperado], None)
                    else
                      (case para_cada_chunk
                              (processar_chunk (if filtrar then coluna_filtro_ente else None)
                                 palavras_chave_entes colunas_analise_existentes)
                              acumulador_inicial (chunks_of chunksize (linhas csv)) of
                         None \<Rightarrow> (log @ [ErroInesperado], None)
                       | Some ac \<Rightarrow>
                           (log, Some (montar_resultados ordenar ac
                                         (\<lambda>col. col \<in> set colunas_analise_existentes)
                                         colunas_analise))))))"

text \<open>
  \<open>analisar_frequencias_entes_publicos\<close> of \<open>analise_output_sus.py\<close>. The columns read are
  the requested columns and the filter column that the header has; the scan gives up when
  the filter column is not among them. \<open>colunas_para_ler\<close> is a set in the source, listed
  here; only membership in it is used. The column loop runs over \<open>colunas_analise\<close> and
  skips the columns that were not read.
\<close>

definition analisar_frequencias_entes_publicos ::
  "(counter \<Rightarrow> counter) \<Rightarrow> nat \<Rightarrow> csv_source \<Rightarrow> string list \<Rightarrow> string \<Rightarrow> string list
     \<Rightarrow> log_msg list \<times> (string \<rightharpoonup> resultado_coluna) option"
where
  "analisar_frequencias_entes_publicos ordenar chunksize csv colunas_analise
       coluna_natjur_passivo palavras_chave_entes_publicos =
     (if \<not> existe csv then ([ArquivoNaoEncontrado], None)
      else case cabecalho csv of
        None \<Rightarrow> ([ErroCabecalho], None)
      | Some colunas_presentes \<Rightarrow>
          (let colunas_para_ler = colunas_analise @ [coluna_natjur_passivo];
               colunas_analise_existentes =
                 filter (\<lambda>col. col \<in> set colunas_presentes) colunas_para_ler
           in if colunas_analise_existentes = []
                   \<or> coluna_natjur_passivo \<notin> set colunas_analise_existentes
              then ([ColunasEssenciaisNaoEncontradas], None)
              else if chunksize = 0 then ([ErroInesperado], None)
              else
                (case para_cada_chunk
                        (processar_chunk (Some coluna_natjur_passivo)
                           palavras_chave_entes_publicos
                           (filter (\<lambda>col. col \<in> set colunas_analise_existentes) colunas_analise))
                        acumulador_inicial (chunks_of chunksize (linhas csv)) of
                   None \<Rightarrow> ([ErroInesperado], None)
                 | Some ac \<Rightarrow>
                     ([], Some (montar_resultados ordenar ac
                                   (\<lambda>col. col \<in> set colunas_presentes) colunas_analise)))))"

text \<open>
  \<open>analisar_frequencias\<close> of \<open>analise_output.py\<close>, under the name
  \<open>analisar_frequencias_output\<close>. It has no entity filter and no confidential count: every
  token is counted with \<open>Counter.update\<close>. The loop body ends with
  \<open>del chunk, col_data, items_exploded\<close>, and \<open>items_exploded\<close> is bound only under
  \<open>if not col_data.empty\<close>. The stored dictionaries have no key \<open>contagem_sigiloso\<close>, read
  as zero here, as \<open>dados_contagem.get('contagem_sigiloso', 0)\<close> reads it.
\<close>

definition atualizar_coluna :: "row list \<Rightarrow> (string \<Rightarrow> counter) \<Rightarrow> string \<Rightarrow> (string \<Rightarrow> counter)" where
  "atualizar_coluna chunk cont coluna =
     (let dados = col_data chunk coluna in
      if dados \<noteq> []
      then (let items_exploded = concat (map (\<lambda>v. parse_multi_valor (Some v)) dados)
            in if items_exploded \<noteq> []
               then cont(coluna := foldl (\<lambda>c item. counter_inc item c) (cont coluna) items_exploded)
               else cont)
      else cont)"

definition processar_chunk_output ::
  "string list \<Rightarrow> (string \<Rightarrow> counter) \<Rightarrow> row list \<Rightarrow> (string \<Rightarrow> counter) option"
where
  "processar_chunk_output colunas cont chunk =
     (if list_ex (\<lambda>coluna. col_data chunk coluna \<noteq> []) colunas
      then Some (foldl (atualizar_coluna chunk) cont colunas)
      else None)"

definition finalizar_output :: "(counter \<Rightarrow> counter) \<Rightarrow> counter \<Rightarrow> resultado_coluna" where
  "finalizar_output ordenar contador =
     (if contador = [] then resultado_vazio
      else \<lparr>contagens = Some (ordenar contador),
            total_ocorrencias = sum_list (map snd (ordenar contador)),
            contagem_sigiloso = 0\<rparr>)"

definition analisar_frequencias_output ::
  "(counter \<Rightarrow> counter) \<Rightarrow> nat \<Rightarrow> csv_source \<Rightarrow> string list
     \<Rightarrow> log_msg list \<times> (string \<rightharpoonup> resultado_coluna) option"
where
  "analisar_frequencias_output ordenar chunksize csv colunas_analise =
     (if \<not> existe csv then ([ArquivoNaoEncontrado], None)
      else case cabecalho csv of
        None \<Rightarrow> ([ErroCabecalho], None)
      | Some colunas_presentes_no_arquivo \<Rightarrow>
          (let colunas_analise_existentes =
                 filter (\<lambda>col. col \<in> set colunas_presentes_no_arquivo) colunas_analise
           in if colunas_analise_existentes = [] then ([NenhumaColunaAnalise], None)
              else if chunksize = 0 then ([ErroInesperado], None)
              else
                (case para_cada_chunk (processar_chunk_output colunas_analise_existentes)
                        (\<lambda>col. []) (chunks_of chunksize (linhas csv)) of
                   None \<Rightarrow> ([ErroInesperado], None)
                 | Some cont \<Rightarrow>
                     ([], Some (foldl (\<lambda>resultados coluna.
                                         resultados(coluna \<mapsto> finalizar_output ordenar (cont coluna)))
                                  Map.empty colunas_analise_existentes)))))"

section \<open>Reading a scan\<close>

text \<open>
  \<open>linha_observada\<close>: whether the chunk loop counts a row, given the filter column in force.
  \<open>consultar\<close>: the entry of a column in the value a scan returned, \<open>None\<close> when the scan
  returned \<open>None\<close>.
\<close>

definition linha_observada :: "string option \<Rightarrow> string list \<Rightarrow> row \<Rightarrow> bool" where
  "linha_observada filtro palavras_chave linha =
     (case filtro of
        None \<Rightarrow> True
      | Some coluna_filtro \<Rightarrow> eh_ente_publico (linha coluna_filtro) palavras_chave)"

definition consultar ::
  "(string \<rightharpoonup> resultado_coluna) option \<Rightarrow> string \<Rightarrow> resultado_coluna option option" where
  "consultar retorno coluna = map_option (\<lambda>resultados. resultados coluna) retorno"

text \<open>
  \<open>chaves_validas\<close>: no key of a \<open>Counter\<close> of the accumulator has the stripped uppercased
  form \<open>SIGILOSO\<close> or the empty one.
\<close>

definition chaves_validas :: "acumulador \<Rightarrow> bool" where
  "chaves_validas ac =
     (\<forall>c. \<forall>k \<in> fst ` set (contadores ac c). upper (strip k) \<noteq> ''SIGILOSO'' \<and> upper (strip k) \<noteq> [])"

text \<open>
  \<open>mesma_coluna\<close>: two accumulators hold the same for a column. \<open>tokens_coluna\<close>: the
  tokens of a column in a list of rows, in order.
\<close>

definition mesma_coluna :: "string \<Rightarrow> acumulador \<Rightarrow> acumulador \<Rightarrow> bool" where
  "mesma_coluna c ac ac' =
     (contadores ac c = contadores ac' c \<and> sigilosos ac c = sigilosos ac' c)"

definition tokens_coluna :: "row list \<Rightarrow> string \<Rightarrow> string list" where
  "tokens_coluna rows c = concat (map (\<lambda>v. parse_multi_valor (Some v)) (col_data rows c))"

text \<open>Sources used to run the scans on concrete rows.\<close>

definition fonte_sem_colunas :: csv_source where
  "fonte_sem_colunas =
     \<lparr>existe = True, cabecalho = Some [''Tribunal''], linhas = [[''Tribunal'' \<mapsto> ''TJSP'']]\<rparr>"

definition fonte_parcial :: csv_source where
  "fonte_parcial =
     \<lparr>existe = True, cabecalho = Some [''Polo ativo'', ''Tribunal''],
      linhas = [[''Polo ativo'' \<mapsto> ''{A, B}'', ''Tribunal'' \<mapsto> ''TJSP''],
                [''Polo ativo'' \<mapsto> ''{A}'', ''Tribunal'' \<mapsto> ''TJSP''],
                [''Polo ativo'' \<mapsto> ''{SIGILOSO}'', ''Tribunal'' \<mapsto> ''TJSP'']]\<rparr>"

definition fonte_linha_vazia :: csv_source where
  "fonte_linha_vazia =
     \<lparr>existe = True, cabecalho = Some [''Polo ativo'', ''Tribunal''],
      linhas = [[''Tribunal'' \<mapsto> ''TJSP''],
                [''Polo ativo'' \<mapsto> ''{A}'', ''Tribunal'' \<mapsto> ''TJRJ'']]\<rparr>"

text \<open>
  A file of 100001 rows: 100000 rows with a value in the analysed column, then one row
  without.
\<close>

definition linha_com_A :: row where
  "linha_com_A = [''Polo ativo'' \<mapsto> ''{A}'', ''Tribunal'' \<mapsto> ''TJRJ'']"

definition linha_sem_valor :: row where
  "linha_sem_valor = [''Tribunal'' \<mapsto> ''TJSP'']"

definition fonte_grande :: csv_source where
  "fonte_grande =
     \<lparr>existe = True, cabecalho = Some [''Polo ativo'', ''Tribunal''],
      linhas = replicate 100000 linha_com_A @ [linha_sem_valor]\<rparr>"

section \<open>Summarizer\<close>

text \<open>
  The percentages are computed in binary floating point: \<open>count / total * 100\<close> is a
  division and a multiplication of 64-bit floats, each rounded to the nearest float, ties
  to the even significand, and \<open>'{:.2f}'.format\<close> prints the float rounded to two decimals,
  ties to the even digit. A float is modelled by its significand and exponent \<open>(m, e)\<close>,
  standing for \<open>m * 2 ^ e\<close>. The counts stay below \<open>2 ^ 53\<close>, where every integer is a
  float, and the results stay in the range of normal floats.
\<close>

text \<open>\<open>int.bit_length()\<close>.\<close>

function bits :: "int \<Rightarrow> int" where
  "bits n = (if n \<le> 0 then 0 else 1 + bits (n div 2))"
  by pat_completeness auto
termination
  by (relation "measure nat") auto

declare bits.simps [simp del]

definition pow2 :: "int \<Rightarrow> int" where
  "pow2 k = 2 ^ nat k"

text \<open>The integer nearest to \<open>num / den\<close> for \<open>0 < den\<close>, ties to the even integer.\<close>

definition arredondar_meio_par :: "int \<Rightarrow> int \<Rightarrow> int" where
  "arredondar_meio_par num den =
     (let q = num div den; r = num mod den
      in if 2 * r < den then q
         else if den < 2 * r then q + 1
         else if even q then q else q + 1)"

text \<open>
  The float nearest to \<open>a / b\<close> for \<open>0 \<le> a\<close> and \<open>0 < b\<close>: the exponent \<open>k\<close> is the one
  that puts \<open>a / b / 2 ^ k\<close> between \<open>2 ^ 52\<close> and \<open>2 ^ 53\<close>, and the significand is that
  quotient rounded.
\<close>

definition para_double :: "int \<Rightarrow> int \<Rightarrow> int \<times> int" where
  "para_double a b =
     (if a = 0 then (0, 0)
      else
        (let k1 = bits a - bits b - 53;
             k = (if 2 ^ 53 \<le> (a * pow2 (- k1)) div (b * pow2 k1) then k1 + 1 else k1)
         in (arredondar_meio_par (a * pow2 (- k)) (b * pow2 k), k)))"

definition dividir :: "int \<Rightarrow> int \<Rightarrow> int \<times> int" where
  "dividir c t = para_double c t"

definition multiplicar :: "int \<times> int \<Rightarrow> int \<Rightarrow> int \<times> int" where
  "multiplicar x n =
     (case x of (m, e) \<Rightarrow> (case para_double (m * n) 1 of (m', k) \<Rightarrow> (m', k + e)))"

text \<open>\<open>str(n)\<close> for an integer.\<close>

definition digito :: "int \<Rightarrow> char" where
  "digito d = ''0123456789'' ! nat d"

function digitos :: "int \<Rightarrow> string" where
  "digitos n = (if n < 10 then [digito n] else digitos (n div 10) @ [digito (n mod 10)])"
  by pat_completeness auto
termination
  by (relation "measure nat") auto

declare digitos.simps [simp del]

definition str_int :: "int \<Rightarrow> string" where
  "str_int n = (if n < 0 then CHR ''-'' # digitos (- n) else digitos n)"

text \<open>\<open>'{:.2f}'.format(x)\<close> for a float that is not negative.\<close>

definition formato_2f :: "int \<times> int \<Rightarrow> string" where
  "formato_2f x =
     (case x of (m, e) \<Rightarrow>
        (let centesimos = arredondar_meio_par (m * 100 * pow2 e) (pow2 (- e))
         in str_int (centesimos div 100) @ ''.''
              @ [digito (centesimos div 10 mod 10), digito (centesimos mod 10)]))"

text \<open>The text of \<open>count / total * 100\<close> with two decimals and the percent sign.\<close>

definition percentual :: "int \<Rightarrow> int \<Rightarrow> string" where
  "percentual contagem total_geral =
     formato_2f (multiplicar (dividir contagem total_geral) 100) @ ''%''"

text \<open>A row of the table: the columns \<open>Item\<close>, \<open>Contagem\<close> and \<open>Percentual\<close>.\<close>

record linha_tabela =
  Item :: string
  Contagem :: int
  Percentual :: string

text \<open>\<open>Series.head(n)\<close>: the first \<open>n\<close> entries, or all but the last \<open>-n\<close> for a negative \<open>n\<close>.\<close>

definition head :: "int \<Rightarrow> 'a list \<Rightarrow> 'a list" where
  "head n xs = (if 0 \<le> n then take (nat n) xs else take (nat (int (length xs) + n)) xs)"

text \<open>
  The two functions \<open>formatar_tabela_analise\<close>, of \<open>relatorio_export.py\<close> and of
  \<open>gerar_relatorio_analise_cnj.py\<close>, build the data frame by the same steps up to the
  confidential row: the Top-N rows, the row \<open>Outros\<close> and the row \<open>Sigiloso\<close>.
  \<open>corpo_tabela\<close> is the data frame after these steps, its rows listed in order;
  \<open>cont\<close> is the series under the key \<open>contagens\<close>.
\<close>

definition corpo_tabela :: "resultado_coluna \<Rightarrow> counter \<Rightarrow> int \<Rightarrow> linha_tabela list" where
  "corpo_tabela dados_contagem cont top_n =
     (let total_geral = int (total_ocorrencias dados_contagem);
          sigiloso = int (contagem_sigiloso dados_contagem);
          total_validas = total_geral - sigiloso;
          total_itens_unicos_validos = int (length cont);
          top_n_contagens = head top_n cont;
          soma_top_n = sum_list (map (\<lambda>kv. int (snd kv)) top_n_contagens);
          contagem_outros = total_validas - soma_top_n;
          df_top = map (\<lambda>kv. \<lparr>Item = fst kv, Contagem = int (snd kv),
                                Percentual = percentual (int (snd kv)) total_geral\<rparr>)
                     top_n_contagens;
          df_outros =
            (if top_n < total_itens_unicos_validos \<and> 0 < contagem_outros
             then df_top @
                  [\<lparr>Item = ''Outros ('' @ str_int (total_itens_unicos_validos - top_n)
                            @ '' itens)'',
                    Contagem = contagem_outros,
                    Percentual = percentual contagem_outros total_geral\<rparr>]
             else df_top)
      in if 0 < sigiloso
         then df_outros @
              [\<lparr>Item = ''Sigiloso'', Contagem = sigiloso,
                Percentual = percentual sigiloso total_geral\<rparr>]
         else df_outros)"

definition linha_total :: "resultado_coluna \<Rightarrow> linha_tabela" where
  "linha_total dados_contagem =
     \<lparr>Item = ''TOTAL GERAL'', Contagem = int (total_ocorrencias dados_contagem),
      Percentual = ''100.00%''\<rparr>"

text \<open>
  \<open>formatar_tabela_analise\<close> of \<open>relatorio_export.py\<close>: \<open>None\<close> without data, otherwise
  the rows above followed by the total row when there are rows.
\<close>

definition formatar_tabela_analise :: "resultado_coluna \<Rightarrow> int \<Rightarrow> linha_tabela list option" where
  "formatar_tabela_analise dados_contagem top_n =
     (case contagens dados_contagem of
        None \<Rightarrow> None
      | Some cont \<Rightarrow>
          if total_ocorrencias dados_contagem = 0 then None
          else
            (let df_corpo = corpo_tabela dados_contagem cont top_n;
                 df_tabela = (if df_corpo \<noteq> [] then df_corpo @ [linha_total dados_contagem]
                              else df_corpo)
             in if df_tabela \<noteq> [] then Some df_tabela else None))"

text \<open>
  \<open>formatar_tabela_analise\<close> of \<open>gerar_relatorio_analise_cnj.py\<close>, under the name
  \<open>formatar_tabela_analise_cnj\<close>: the total row is added when the table has rows or the
  confidential count is positive.
\<close>

definition formatar_tabela_analise_cnj :: "resultado_coluna \<Rightarrow> int \<Rightarrow> linha_tabela list option" where
  "formatar_tabela_analise_cnj dados_contagem top_n =
     (case contagens dados_contagem of
        None \<Rightarrow> None
      | Some cont \<Rightarrow>
          if total_ocorrencias dados_contagem = 0 then None
          else
            (let df_corpo = corpo_tabela dados_contagem cont top_n;
                 df_tabela = (if df_corpo \<noteq> [] \<or> 0 < contagem_sigiloso dados_contagem
                              then df_corpo @ [linha_total dados_contagem]
                              else df_corpo)
             in if df_tabela \<noteq> [] then Some df_tabela else None))"

section \<open>Properties of the tokenizer\<close>

lemma comma_not_space: "\<not> isspace (CHR '','')"
  by (simp add: isspace_def)

lemma space_is_space: "isspace (CHR '' '')"
  by (simp add: isspace_def)

lemma last_dropWhile: "dropWhile P xs \<noteq> [] \<Longrightarrow> last (dropWhile P xs) = last xs"
  by (induction xs) (auto split: if_splits)

lemma strip_ends:
  assumes "strip s \<noteq> []"
  shows "\<not> isspace (hd (strip s))" and "\<not> isspace (last (strip s))"
proof -
  let ?d = "dropWhile isspace s"
  let ?e = "dropWhile isspace (rev ?d)"
  from assms have e: "?e \<noteq> []" by (simp add: strip_def)
  have d: "?d \<noteq> []"
  proof
    assume z: "?d = []"
    have "?e = []" unfolding z by simp
    with e show False by simp
  qed
  have "last (strip s) = hd ?e" using e by (simp add: strip_def last_rev)
  then show "\<not> isspace (last (strip s))" using e hd_dropWhile [of isspace "rev ?d"] by simp
  have "hd (strip s) = last ?e" using e by (simp add: strip_def hd_rev)
  also have "\<dots> = last (rev ?d)" using e by (rule last_dropWhile)
  also have "\<dots> = hd ?d" using d by (simp add: last_rev)
  finally show "\<not> isspace (hd (strip s))" using d hd_dropWhile [of isspace s] by simp
qed

lemma set_strip: "set (strip s) \<subseteq> set s"
proof
  fix x assume "x \<in> set (strip s)"
  then have "x \<in> set (dropWhile isspace (rev (dropWhile isspace s)))" by (simp add: strip_def)
  then have "x \<in> set (rev (dropWhile isspace s))" by (rule set_dropWhileD)
  then have "x \<in> set (dropWhile isspace s)" by simp
  then show "x \<in> set s" by (rule set_dropWhileD)
qed

lemma strip_id:
  assumes "s = [] \<or> (\<not> isspace (hd s) \<and> \<not> isspace (last s))"
  shows "strip s = s"
proof (cases s)
  case Nil
  then show ?thesis by (simp add: strip_def)
next
  case (Cons c cs)
  with assms have h: "\<not> isspace c" and l: "\<not> isspace (last s)" by auto
  have 1: "dropWhile isspace s = s" using h Cons by simp
  have "rev s \<noteq> []" using Cons by simp
  moreover have "hd (rev s) = last s" using Cons by (simp add: hd_rev)
  ultimately obtain ys where ry: "rev s = last s # ys" by (cases "rev s") auto
  have 2: "dropWhile isspace (rev s) = rev s" unfolding ry using l by simp
  show ?thesis by (simp add: strip_def 1 2)
qed

lemma sep_matches_comma: "sep_matches s \<Longrightarrow> CHR '','' \<in> set s"
proof -
  assume "sep_matches s"
  then obtain r where "dropWhile isspace s = CHR '','' # r"
    by (auto simp: sep_matches_def startswith_def split: list.splits)
  then have "CHR '','' \<in> set (dropWhile isspace s)" by simp
  then show ?thesis by (rule set_dropWhileD)
qed

lemma sep_matches_head: "sep_matches (CHR '','' # cs)"
  by (simp add: sep_matches_def startswith_def comma_not_space)

lemma re_split_pieces_no_comma:
  "CHR '','' \<notin> set acc \<Longrightarrow> p \<in> set (re_split acc s) \<Longrightarrow> CHR '','' \<notin> set p"
proof (induction acc s rule: re_split.induct)
  case (1 acc)
  then show ?case by simp
next
  case (2 acc c cs)
  show ?case
  proof (cases "sep_matches (c # cs)")
    case True
    with 2 show ?thesis by auto
  next
    case False
    then have "c \<noteq> CHR '',''" using sep_matches_head by auto
    with 2 False show ?thesis by auto
  qed
qed

lemma re_split_no_comma: "CHR '','' \<notin> set t \<Longrightarrow> re_split acc t = [rev acc @ t]"
proof (induction t arbitrary: acc)
  case Nil
  then show ?case by simp
next
  case (Cons c cs)
  then have "\<not> sep_matches (c # cs)" using sep_matches_comma by blast
  with Cons show ?case by simp
qed

lemma not_sep_matches_token:
  assumes "t \<noteq> []" and "\<not> isspace (last t)" and "CHR '','' \<notin> set t"
  shows "\<not> sep_matches (t @ r)"
proof -
  have ex: "\<exists>x \<in> set t. \<not> isspace x" using assms(1,2) last_in_set by blast
  then obtain x where "x \<in> set t" and "\<not> isspace x" by auto
  then have "dropWhile isspace (t @ r) = dropWhile isspace t @ r"
    by (rule dropWhile_append1)
  moreover have d: "dropWhile isspace t \<noteq> []" using ex by (simp add: dropWhile_eq_Nil_conv)
  ultimately have "hd (dropWhile isspace (t @ r)) = hd (dropWhile isspace t)" by simp
  moreover have "hd (dropWhile isspace t) \<in> set t"
    using d by (meson hd_in_set set_dropWhileD)
  ultimately have "hd (dropWhile isspace (t @ r)) \<noteq> CHR '',''" using assms(3) by auto
  moreover have "dropWhile isspace (t @ r) \<noteq> []" using d \<open>dropWhile isspace (t @ r) = dropWhile isspace t @ r\<close> by simp
  ultimately show ?thesis
    by (auto simp: sep_matches_def startswith_def split: list.splits)
qed

lemma re_split_token:
  assumes "t = [] \<or> \<not> isspace (last t)" and "CHR '','' \<notin> set t"
  shows "re_split acc (t @ CHR '','' # r) = (rev acc @ t) # re_split [] (dropWhile isspace r)"
  using assms
proof (induction t arbitrary: acc)
  case Nil
  have "after_sep (CHR '','' # r) = dropWhile isspace r"
    by (simp add: after_sep_def comma_not_space)
  then show ?case using sep_matches_head by simp
next
  case (Cons c cs)
  have "\<not> sep_matches ((c # cs) @ CHR '','' # r)"
    using Cons.prems by (intro not_sep_matches_token) auto
  moreover have "cs = [] \<or> \<not> isspace (last cs)" using Cons.prems by (auto split: if_splits)
  ultimately show ?case using Cons by simp
qed

lemma join_hd: "ts \<noteq> [] \<Longrightarrow> hd ts \<noteq> [] \<Longrightarrow> hd (join sep ts) = hd (hd ts)"
  by (induction sep ts rule: join.induct) auto

lemma join_nonempty: "ts \<noteq> [] \<Longrightarrow> \<forall>t \<in> set ts. t \<noteq> [] \<Longrightarrow> join sep ts \<noteq> []"
  by (induction sep ts rule: join.induct) auto

lemma join_last:
  "ts \<noteq> [] \<Longrightarrow> \<forall>t \<in> set ts. t \<noteq> [] \<Longrightarrow> last (join sep ts) = last (last ts)"
proof (induction sep ts rule: join.induct)
  case (3 sep x y ys)
  then have "join sep (y # ys) \<noteq> []" by (intro join_nonempty) auto
  with 3 show ?case by simp
qed auto

lemma re_split_join:
  "\<forall>t \<in> set (t # ts). token_ok t \<Longrightarrow> re_split acc (join '', '' (t # ts)) = (rev acc @ t) # ts"
proof (induction ts arbitrary: t acc)
  case Nil
  then show ?case by (simp add: re_split_no_comma token_ok_def)
next
  case (Cons u us)
  have t: "token_ok t" and u: "token_ok u" using Cons.prems by auto
  have j: "join '', '' (t # u # us) = t @ CHR '','' # (CHR '' '' # join '', '' (u # us))"
    by simp
  have "hd (join '', '' (u # us)) = hd u" using u by (simp add: join_hd token_ok_def)
  moreover have "join '', '' (u # us) \<noteq> []"
    using Cons.prems by (intro join_nonempty) (auto simp: token_ok_def)
  ultimately have d: "dropWhile isspace (CHR '' '' # join '', '' (u # us)) = join '', '' (u # us)"
    using u by (cases "join '', '' (u # us)") (auto simp: token_ok_def space_is_space)
  have "re_split acc (t @ CHR '','' # (CHR '' '' # join '', '' (u # us)))
          = (rev acc @ t) # re_split [] (dropWhile isspace (CHR '' '' # join '', '' (u # us)))"
    using t by (intro re_split_token) (auto simp: token_ok_def)
  then have "re_split acc (join '', '' (t # u # us)) = (rev acc @ t) # re_split [] (join '', '' (u # us))"
    unfolding j d .
  also have "re_split [] (join '', '' (u # us)) = u # us"
    using Cons.IH [of u "[]"] Cons.prems by simp
  finally show ?case .
qed

lemma parse_tokens_ok: "t \<in> set (parse_multi_valor x) \<Longrightarrow> token_ok t"
proof -
  assume a: "t \<in> set (parse_multi_valor x)"
  then obtain v where x: "x = Some v" by (cases x) (auto simp: parse_multi_valor_def)
  define inner where "inner = (if startswith (strip v) (CHR ''{'') \<and> endswith (strip v) (CHR ''}'')
                     then butlast (tl (strip v)) else strip v)"
  from a x obtain p where p: "p \<in> set (re_split [] inner)" and tp: "t = strip p" and ne: "strip p \<noteq> []"
    by (auto simp: parse_multi_valor_def Let_def inner_def split: if_splits)
  have "CHR '','' \<notin> set p" using p re_split_pieces_no_comma [of "[]" p inner] by simp
  then have "CHR '','' \<notin> set t" using set_strip [of p] tp by auto
  then show ?thesis using strip_ends [OF ne] ne tp by (simp add: token_ok_def)
qed

lemma parse_join_tokens:
  assumes ok: "\<forall>t \<in> set ts. token_ok t"
    and nw: "\<not> (startswith (join '', '' ts) (CHR ''{'') \<and> endswith (join '', '' ts) (CHR ''}''))"
  shows "parse_multi_valor (Some (join '', '' ts)) = ts"
proof (cases ts)
  case Nil
  then show ?thesis by (simp add: parse_multi_valor_def strip_def)
next
  case (Cons t us)
  let ?j = "join '', '' ts"
  have ne: "?j \<noteq> []" using ok Cons by (intro join_nonempty) (auto simp: token_ok_def)
  have "hd ?j = hd t" using ok Cons by (simp add: join_hd token_ok_def)
  moreover have "last ?j = last (last ts)"
    using ok Cons by (intro join_last) (auto simp: token_ok_def)
  moreover have "token_ok (last ts)" using ok Cons by (metis last_in_set list.discI)
  ultimately have s: "strip ?j = ?j" using ok Cons by (intro strip_id) (auto simp: token_ok_def)
  have r: "re_split [] ?j = ts" using re_split_join [of t us "[]"] ok Cons by simp
  have m: "[strip item. item \<leftarrow> ts, strip item \<noteq> []] = ts"
    using ok
  proof (induction ts)
    case Nil
    then show ?case by simp
  next
    case (Cons a as)
    then have "strip a = a" by (intro strip_id) (auto simp: token_ok_def)
    moreover have "a \<noteq> []" using Cons.prems by (auto simp: token_ok_def)
    ultimately show ?case using Cons by simp
  qed
  have sel: "(if startswith ?j (CHR ''{'') \<and> endswith ?j (CHR ''}'') then butlast (tl ?j) else ?j) = ?j"
    using nw by auto
  have "parse_multi_valor (Some ?j) = [strip item. item \<leftarrow> re_split [] ?j, strip item \<noteq> []]"
    unfolding parse_multi_valor_def option.case Let_def s sel using ne by simp
  then show ?thesis unfolding r m .
qed

lemma conteudo_Nil: "conteudo [] = 0"
  by (simp add: conteudo_def)

lemma conteudo_Cons:
  "conteudo (c # cs) = (if \<not> isspace c \<and> c \<noteq> CHR '','' then 1 else 0) + conteudo cs"
  by (simp add: conteudo_def)

lemma conteudo_append: "conteudo (xs @ ys) = conteudo xs + conteudo ys"
  by (simp add: conteudo_def)

lemma conteudo_rev: "conteudo (rev xs) = conteudo xs"
  by (simp add: conteudo_def flip: rev_filter)

lemma conteudo_dropWhile: "conteudo (dropWhile isspace s) = conteudo s"
  by (induction s) (simp_all add: conteudo_def)

lemma conteudo_strip: "conteudo (strip s) = conteudo s"
  by (simp add: strip_def conteudo_rev conteudo_dropWhile)

lemma conteudo_after_sep: "sep_matches s \<Longrightarrow> conteudo (after_sep s) = conteudo s"
proof -
  assume "sep_matches s"
  then obtain r where r: "dropWhile isspace s = CHR '','' # r"
    by (auto simp: sep_matches_def startswith_def split: list.splits)
  have "conteudo s = conteudo (dropWhile isspace s)" by (simp add: conteudo_dropWhile)
  also have "\<dots> = conteudo r" unfolding r by (simp add: conteudo_def)
  finally show ?thesis by (simp add: after_sep_def r conteudo_dropWhile)
qed

lemma conteudo_re_split:
  "sum_list (map conteudo (re_split acc s)) = conteudo (rev acc) + conteudo s"
proof (induction acc s rule: re_split.induct)
  case (1 acc)
  then show ?case by (simp add: conteudo_Nil)
next
  case (2 acc c cs)
  show ?case
  proof (cases "sep_matches (c # cs)")
    case True
    then have "sum_list (map conteudo (re_split [] (after_sep (c # cs))))
                 = conteudo (after_sep (c # cs))"
      using 2 by (simp add: conteudo_Nil)
    also have "\<dots> = conteudo (c # cs)" using True by (rule conteudo_after_sep)
    finally show ?thesis using True by simp
  next
    case False
    then have "sum_list (map conteudo (re_split (c # acc) cs)) = conteudo (rev (c # acc)) + conteudo cs"
      using 2 by simp
    also have "\<dots> = conteudo (rev acc) + conteudo (c # cs)"
      by (simp add: conteudo_append conteudo_Cons conteudo_Nil)
    finally show ?thesis using False by simp
  qed
qed

lemma conteudo_vazio: "strip p = [] \<Longrightarrow> conteudo p = 0"
  using conteudo_strip [of p] by (simp add: conteudo_def)

lemma conteudo_tokens:
  "sum_list (map conteudo [strip item. item \<leftarrow> ps, strip item \<noteq> []]) = sum_list (map conteudo ps)"
  by (induction ps) (simp_all add: conteudo_strip conteudo_vazio)

lemma conteudo_join: "conteudo (join '', '' ts) = sum_list (map conteudo ts)"
proof (induction "'', ''" ts rule: join.induct)
  case 1
  then show ?case by (simp add: conteudo_def)
next
  case (2 x)
  then show ?case by simp
next
  case (3 x y ys)
  have "conteudo (x @ '', '' @ join '', '' (y # ys)) = conteudo x + conteudo (join '', '' (y # ys))"
    by (simp add: conteudo_append conteudo_Cons isspace_def)
  with 3 show ?case by simp
qed

lemma conteudo_sem_chaves:
  assumes "startswith s (CHR ''{'')" and "endswith s (CHR ''}'')"
  shows "conteudo s = conteudo (butlast (tl s)) + 2"
proof -
  from assms(1) obtain r where s: "s = CHR ''{'' # r"
    by (cases s) (simp_all add: startswith_def)
  from assms(2) s have "r \<noteq> []" and l: "last r = CHR ''}''"
    by (auto simp: endswith_def split: if_splits)
  then have r: "r = butlast r @ [CHR ''}'']" by (metis append_butlast_last_id)
  have "conteudo s = 1 + conteudo r" using s by (simp add: conteudo_def isspace_def)
  also have "conteudo r = conteudo (butlast r) + 1"
    by (subst r) (simp add: conteudo_append, simp add: conteudo_def isspace_def)
  finally show ?thesis using s by simp
qed

lemma parse_join_wrapped:
  assumes ok: "\<forall>t \<in> set ts. token_ok t"
    and w: "startswith (join '', '' ts) (CHR ''{'') \<and> endswith (join '', '' ts) (CHR ''}'')"
  shows "parse_multi_valor (Some (join '', '' ts)) \<noteq> ts"
proof -
  let ?j = "join '', '' ts"
  from w have ne: "?j \<noteq> []" by (auto simp: endswith_def)
  then obtain t us where ts: "ts = t # us" by (cases ts) auto
  have "hd ?j = hd t" using ok ts by (simp add: join_hd token_ok_def)
  moreover have "last ?j = last (last ts)"
    using ok ts by (intro join_last) (auto simp: token_ok_def)
  moreover have "token_ok (last ts)" using ok ts by (metis last_in_set list.discI)
  ultimately have s: "strip ?j = ?j" using ok ts by (intro strip_id) (auto simp: token_ok_def)
  have "parse_multi_valor (Some ?j)
          = [strip item. item \<leftarrow> re_split [] (butlast (tl ?j)), strip item \<noteq> []]"
    unfolding parse_multi_valor_def option.case Let_def s using ne w by simp
  then have "sum_list (map conteudo (parse_multi_valor (Some ?j))) = conteudo (butlast (tl ?j))"
    by (simp only: conteudo_tokens conteudo_re_split) (simp add: conteudo_def)
  moreover have "conteudo ?j = conteudo (butlast (tl ?j)) + 2"
    using w by (intro conteudo_sem_chaves) simp_all
  ultimately have "sum_list (map conteudo (parse_multi_valor (Some ?j))) + 2
                     = sum_list (map conteudo ts)"
    by (simp add: conteudo_join)
  then show ?thesis by auto
qed

text \<open>
  Claim C4 as stated fails: a cell wrapped in two pairs of braces loses one pair at each
  tokenization, so the tokens of \<open>{{a}}\<close> are \<open>[{a}]\<close>, while the tokens of the re-joined
  text \<open>{a}\<close> are \<open>[a]\<close>.
\<close>

theorem parse_multi_valor_not_idempotent:
  "parse_multi_valor (Some (join '', '' (parse_multi_valor (Some ''{{a}}''))))
     \<noteq> parse_multi_valor (Some ''{{a}}'')"
  by code_simp

text \<open>
  Claim C4, amended. Tokenizing the tokens of a cell joined with a comma and a space
  returns the same tokens exactly when the joined text does not both start with an opening
  brace and end with a closing brace.
\<close>

theorem parse_multi_valor_idempotent_unwrapped:
  "parse_multi_valor (Some (join '', '' (parse_multi_valor x))) = parse_multi_valor x
     \<longleftrightarrow> \<not> (startswith (join '', '' (parse_multi_valor x)) (CHR ''{'')
              \<and> endswith (join '', '' (parse_multi_valor x)) (CHR ''}''))"
proof
  assume e: "parse_multi_valor (Some (join '', '' (parse_multi_valor x))) = parse_multi_valor x"
  show "\<not> (startswith (join '', '' (parse_multi_valor x)) (CHR ''{'')
              \<and> endswith (join '', '' (parse_multi_valor x)) (CHR ''}''))"
  proof
    assume "startswith (join '', '' (parse_multi_valor x)) (CHR ''{'')
              \<and> endswith (join '', '' (parse_multi_valor x)) (CHR ''}'')"
    then have "parse_multi_valor (Some (join '', '' (parse_multi_valor x))) \<noteq> parse_multi_valor x"
      using parse_tokens_ok by (intro parse_join_wrapped) auto
    with e show False by simp
  qed
next
  assume "\<not> (startswith (join '', '' (parse_multi_valor x)) (CHR ''{'')
              \<and> endswith (join '', '' (parse_multi_valor x)) (CHR ''}''))"
  then show "parse_multi_valor (Some (join '', '' (parse_multi_valor x))) = parse_multi_valor x"
    using parse_tokens_ok by (intro parse_join_tokens) auto
qed

theorem parse_multi_valor_idempotent_unwrapped_witness:
  "parse_multi_valor (Some (join '', '' (parse_multi_valor (Some ''{12480, 12521,  12480}''))))
       = [''12480'', ''12521'', ''12480'']"
proof -
  have p: "parse_multi_valor (Some ''{12480, 12521,  12480}'') = [''12480'', ''12521'', ''12480'']"
    by code_simp
  have h: "\<not> (startswith (join '', '' (parse_multi_valor (Some ''{12480, 12521,  12480}''))) (CHR ''{'')
              \<and> endswith (join '', '' (parse_multi_valor (Some ''{12480, 12521,  12480}''))) (CHR ''}''))"
    unfolding p by (simp add: startswith_def)
  from h have "parse_multi_valor (Some (join '', '' (parse_multi_valor (Some ''{12480, 12521,  12480}''))))
                 = parse_multi_valor (Some ''{12480, 12521,  12480}'')"
    by (rule parse_multi_valor_idempotent_unwrapped [THEN iffD2])
  then show ?thesis unfolding p .
qed

section \<open>Properties of the entity classifier\<close>

lemma is_prefix_iff: "is_prefix xs ys \<longleftrightarrow> (\<exists>suf. ys = xs @ suf)"
  by (induction xs ys rule: is_prefix.induct) auto

lemma contains_iff: "contains needle hay \<longleftrightarrow> (\<exists>pre suf. hay = pre @ needle @ suf)"
proof (induction hay)
  case Nil
  then show ?case by auto
next
  case (Cons y ys)
  show ?case
  proof
    assume "contains needle (y # ys)"
    then consider "is_prefix needle (y # ys)" | "contains needle ys" by auto
    then show "\<exists>pre suf. y # ys = pre @ needle @ suf"
    proof cases
      case 1
      then obtain suf where "y # ys = needle @ suf" by (auto simp: is_prefix_iff)
      then have "y # ys = [] @ needle @ suf" by simp
      then show ?thesis by blast
    next
      case 2
      then obtain pre suf where "ys = pre @ needle @ suf" using Cons.IH by auto
      then have "y # ys = (y # pre) @ needle @ suf" by simp
      then show ?thesis by blast
    qed
  next
    assume "\<exists>pre suf. y # ys = pre @ needle @ suf"
    then obtain pre suf where e: "y # ys = pre @ needle @ suf" by auto
    show "contains needle (y # ys)"
    proof (cases pre)
      case Nil
      then have "is_prefix needle (y # ys)" using e by (auto simp: is_prefix_iff)
      then show ?thesis by simp
    next
      case (Cons p ps)
      then have "ys = ps @ needle @ suf" using e by simp
      then have "contains needle ys" using Cons.IH by blast
      then show ?thesis by simp
    qed
  qed
qed

lemma chave_em_iff: "chave_em chaves u \<longleftrightarrow> (\<exists>k \<in> set chaves. contains k u)"
  by (induction chaves) auto

lemma alguma_natureza_iff:
  "alguma_natureza chaves ts \<longleftrightarrow> (\<exists>t \<in> set ts. chave_em chaves (upper t))"
  by (induction ts) auto

text \<open>
  Claim C5. \<open>eh_ente_publico\<close> returns true exactly when some token of the tokenized cell,
  uppercased, contains some keyword as a contiguous substring; it returns false for a missing
  cell and for a cell without tokens. With the keywords \<open>MUNICIPIO\<close> and \<open>UNIAO\<close> the cell
  \<open>{Autarquia Municipal}\<close> is rejected and the cell \<open>{Municipio de Exemplo}\<close> is accepted.
\<close>

theorem eh_ente_publico_substring:
  "(eh_ente_publico cell palavras_chave \<longleftrightarrow>
      (\<exists>t \<in> set (parse_multi_valor cell). \<exists>k \<in> set palavras_chave.
         \<exists>pre suf. upper t = pre @ k @ suf))
   \<and> \<not> eh_ente_publico None palavras_chave
   \<and> (parse_multi_valor cell = [] \<longrightarrow> \<not> eh_ente_publico cell palavras_chave)
   \<and> \<not> eh_ente_publico (Some ''{Autarquia Municipal}'') [''MUNICIPIO'', ''UNIAO'']
   \<and> eh_ente_publico (Some ''{Municipio de Exemplo}'') [''MUNICIPIO'', ''UNIAO'']"
proof -
  have iff: "eh_ente_publico c ks \<longleftrightarrow>
      (\<exists>t \<in> set (parse_multi_valor c). \<exists>k \<in> set ks. \<exists>pre suf. upper t = pre @ k @ suf)"
    for c ks
  proof (cases c)
    case None
    then show ?thesis by (simp add: eh_ente_publico_def parse_multi_valor_def)
  next
    case (Some v)
    show ?thesis
    proof (cases "parse_multi_valor (Some v) = []")
      case True
      then show ?thesis using Some by (simp add: eh_ente_publico_def)
    next
      case False
      then have "eh_ente_publico c ks = alguma_natureza ks (parse_multi_valor c)"
        using Some by (simp add: eh_ente_publico_def)
      then show ?thesis
        by (simp add: alguma_natureza_iff chave_em_iff contains_iff)
    qed
  qed
  have a: "\<not> eh_ente_publico None palavras_chave" by (simp add: eh_ente_publico_def)
  have b: "parse_multi_valor cell = [] \<longrightarrow> \<not> eh_ente_publico cell palavras_chave"
    using iff [of cell palavras_chave] by simp
  have c: "\<not> eh_ente_publico (Some ''{Autarquia Municipal}'') [''MUNICIPIO'', ''UNIAO'']"
    by code_simp
  have d: "eh_ente_publico (Some ''{Municipio de Exemplo}'') [''MUNICIPIO'', ''UNIAO'']"
    by code_simp
  show ?thesis using iff [of cell palavras_chave] a b c d by blast
qed

theorem eh_ente_publico_substring_witness:
  "\<exists>t \<in> set (parse_multi_valor (Some ''{Secretaria Municipal}'')).
     \<exists>k \<in> set [''MUNICIPIO'', ''MUNICIPAL'']. \<exists>pre suf. upper t = pre @ k @ suf"
proof -
  have "eh_ente_publico (Some ''{Secretaria Municipal}'') [''MUNICIPIO'', ''MUNICIPAL'']"
    by code_simp
  then show ?thesis
    using eh_ente_publico_substring
      [of "Some ''{Secretaria Municipal}''" "[''MUNICIPIO'', ''MUNICIPAL'']"]
    by blast
qed

section \<open>Properties of the aggregation driver\<close>

lemma foldl_upd_lookup:
  "foldl (\<lambda>m c. m(c \<mapsto> g c)) m0 cols col = (if col \<in> set cols then Some (g col) else m0 col)"
  by (induction cols arbitrary: m0) auto

lemma montar_resultados_lookup:
  "montar_resultados ordenar ac presente colunas col =
     (if col \<in> set colunas
      then Some (if \<not> presente col then resultado_vazio else finalizar ordenar ac col)
      else None)"
  unfolding montar_resultados_def by (simp add: foldl_upd_lookup)

lemma analisar_frequencias_unfold:
  assumes "existe csv" and "cabecalho csv = Some h" and "filter (\<lambda>c. c \<in> set h) cols \<noteq> []"
  shows "analisar_frequencias ordenar n csv cols filtrar f kw =
    (if n = 0 \<or> (filtrar \<and> (f = None \<or> f = Some []))
     then ((if filtrar \<and> (\<exists>fc. f = Some fc \<and> fc \<noteq> [] \<and> fc \<notin> set h)
            then [ColunaFiltroNaoEncontrada] else []) @ [ErroInesperado], None)
     else
       (case para_cada_chunk
               (processar_chunk (if filtrar \<and> (\<exists>fc. f = Some fc \<and> fc \<in> set h) then f else None) kw
                  (filter (\<lambda>c. c \<in> set h) cols))
               acumulador_inicial (chunks_of n (linhas csv)) of
          None \<Rightarrow> ((if filtrar \<and> (\<exists>fc. f = Some fc \<and> fc \<noteq> [] \<and> fc \<notin> set h)
                     then [ColunaFiltroNaoEncontrada] else []) @ [ErroInesperado], None)
        | Some ac \<Rightarrow>
            ((if filtrar \<and> (\<exists>fc. f = Some fc \<and> fc \<noteq> [] \<and> fc \<notin> set h)
              then [ColunaFiltroNaoEncontrada] else []),
             Some (montar_resultados ordenar ac
                     (\<lambda>col. col \<in> set (filter (\<lambda>c. c \<in> set h) cols)) cols))))"
proof (cases f)
  case None
  then show ?thesis
    using assms unfolding analisar_frequencias_def Let_def by simp
next
  case (Some fc)
  show ?thesis
  proof (cases "fc = []")
    case True
    then show ?thesis
      using assms Some unfolding analisar_frequencias_def Let_def by simp
  next
    case False
    then show ?thesis
      using assms Some unfolding analisar_frequencias_def Let_def
      by (cases "fc \<in> set h"; cases filtrar; simp)
  qed
qed

lemma analisar_frequencias_Some:
  assumes "analisar_frequencias ordenar n csv cols filtrar f kw = (msgs, Some res)"
    and "cabecalho csv = Some h"
  obtains ac where
    "res = montar_resultados ordenar ac (\<lambda>col. col \<in> set (filter (\<lambda>c. c \<in> set h) cols)) cols"
    and "para_cada_chunk
           (processar_chunk (if filtrar \<and> (\<exists>fc. f = Some fc \<and> fc \<in> set h) then f else None) kw
              (filter (\<lambda>c. c \<in> set h) cols))
           acumulador_inicial (chunks_of n (linhas csv)) = Some ac"
proof -
  have e: "existe csv"
    using assms(1) by (cases "existe csv") (simp_all add: analisar_frequencias_def)
  have x: "filter (\<lambda>c. c \<in> set h) cols \<noteq> []"
  proof
    assume "filter (\<lambda>c. c \<in> set h) cols = []"
    then have "analisar_frequencias ordenar n csv cols filtrar f kw = ([NenhumaColunaAnalise], None)"
      using e assms(2) by (simp add: analisar_frequencias_def)
    with assms(1) show False by simp
  qed
  note u = analisar_frequencias_unfold [OF e assms(2) x, of ordenar n filtrar f kw]
  show ?thesis
  proof (cases "n = 0 \<or> (filtrar \<and> (f = None \<or> f = Some []))")
    case True
    with u assms(1) show ?thesis by simp
  next
    case False
    show ?thesis
    proof (cases "para_cada_chunk
           (processar_chunk (if filtrar \<and> (\<exists>fc. f = Some fc \<and> fc \<in> set h) then f else None) kw
              (filter (\<lambda>c. c \<in> set h) cols))
           acumulador_inicial (chunks_of n (linhas csv))")
      case None
      with u False assms(1) show ?thesis by simp
    next
      case (Some ac)
      with u False assms(1) have
        "res = montar_resultados ordenar ac (\<lambda>col. col \<in> set (filter (\<lambda>c. c \<in> set h) cols)) cols"
        by simp
      with Some that show ?thesis by blast
    qed
  qed
qed

lemma chunks_of_rows: "chunk \<in> set (chunks_of n xs) \<Longrightarrow> chunk \<noteq> [] \<and> set chunk \<subseteq> set xs"
proof (induction n xs rule: chunks_of.induct)
  case (1 n xs)
  show ?case
  proof (cases "n = 0 \<or> xs = []")
    case True
    with 1 show ?thesis by (simp add: chunks_of.simps)
  next
    case False
    then have "chunks_of n xs = take n xs # chunks_of n (drop n xs)"
      by (subst chunks_of.simps) simp
    with "1.prems" consider "chunk = take n xs" | "chunk \<in> set (chunks_of n (drop n xs))" by auto
    then show ?thesis
    proof cases
      case 1
      with False show ?thesis by (auto dest: in_set_takeD)
    next
      case 2
      with "1.IH" False have "chunk \<noteq> [] \<and> set chunk \<subseteq> set (drop n xs)" by blast
      then show ?thesis by (auto dest: in_set_dropD)
    qed
  qed
qed

lemma para_cada_chunk_ok:
  "(\<And>chunk a. chunk \<in> set chunks \<Longrightarrow> passo a chunk \<noteq> None)
     \<Longrightarrow> para_cada_chunk passo ac chunks \<noteq> None"
proof (induction chunks arbitrary: ac)
  case Nil
  then show ?case by simp
next
  case (Cons c cs)
  then obtain a' where "passo ac c = Some a'" by fastforce
  then show ?case using Cons by simp
qed

lemma col_data_nonempty: "linha \<in> set chunk \<Longrightarrow> linha c \<noteq> None \<Longrightarrow> col_data chunk c \<noteq> []"
  by (auto simp: col_data_def List.map_filter_def filter_empty_conv)

lemma processar_chunk_sem_filtro_ok:
  assumes "chunk \<noteq> []" and "\<forall>linha \<in> set chunk. \<exists>c \<in> set cols. linha c \<noteq> None"
  shows "processar_chunk None kw cols ac chunk \<noteq> None"
proof -
  from assms obtain linha c where "linha \<in> set chunk" "c \<in> set cols" "linha c \<noteq> None"
    by (cases chunk) auto
  then have "c \<in> set cols \<and> col_data chunk c \<noteq> []"
    using col_data_nonempty [of linha chunk c] by simp
  then have "list_ex (\<lambda>coluna. col_data chunk coluna \<noteq> []) cols"
    unfolding list_ex_iff by blast
  then show ?thesis by (simp add: processar_chunk_def)
qed

text \<open>
  Claim C8. When the header holds none of the requested columns, \<open>analisar_frequencias\<close> of
  \<open>gerar_relatorio_analise_cnj.py\<close> and \<open>analisar_frequencias\<close> of \<open>analise_output.py\<close> log
  that no column to analyse was found and return \<open>None\<close>.
\<close>

theorem nenhuma_coluna_analise:
  assumes "existe csv" and "cabecalho csv = Some h" and "\<forall>c \<in> set colunas_analise. c \<notin> set h"
  shows "analisar_frequencias ordenar n csv colunas_analise filtrar f kw
           = ([NenhumaColunaAnalise], None)
       \<and> analisar_frequencias_output ordenar n csv colunas_analise
           = ([NenhumaColunaAnalise], None)"
proof -
  have "filter (\<lambda>c. c \<in> set h) colunas_analise = []" using assms(3) by (simp add: filter_empty_conv)
  then show ?thesis
    using assms(1,2) by (simp add: analisar_frequencias_def analisar_frequencias_output_def)
qed

theorem nenhuma_coluna_analise_witness:
  "analisar_frequencias ordenar_desc 100000 fonte_sem_colunas [''Polo ativo'', ''Polo passivo'']
       True (Some ''Polo passivo'') [''MUNICIPIO'']
     = ([NenhumaColunaAnalise], None)
   \<and> analisar_frequencias_output ordenar_desc 100000 fonte_sem_colunas
       [''Polo ativo'', ''Polo passivo'']
     = ([NenhumaColunaAnalise], None)"
  by (rule nenhuma_coluna_analise [of fonte_sem_colunas "[''Tribunal'']"])
     (simp_all add: fonte_sem_colunas_def)

text \<open>
  Claim C7 as stated fails for \<open>analisar_frequencias_entes_publicos\<close> of
  \<open>analise_output_sus.py\<close>: with the filter column missing from the header and a requested
  column present, it logs that essential columns were not found and returns \<open>None\<close>.
\<close>

theorem entes_publicos_sem_coluna_filtro:
  "fst (analisar_frequencias_entes_publicos ordenar_desc 100000 fonte_parcial
          [''Polo ativo''] ''Polo passivo - Natureza juridica'' [''MUNICIPIO''])
     = [ColunasEssenciaisNaoEncontradas]
   \<and> consultar (snd (analisar_frequencias_entes_publicos ordenar_desc 100000 fonte_parcial
          [''Polo ativo''] ''Polo passivo - Natureza juridica'' [''MUNICIPIO''])) ''Polo ativo''
     = None"
  by (simp add: analisar_frequencias_entes_publicos_def fonte_parcial_def consultar_def)

text \<open>
  Claim C7, amended. In \<open>analisar_frequencias\<close> of \<open>gerar_relatorio_analise_cnj.py\<close>, when the
  filter is requested, the filter column is missing from the header and a requested column
  is present, the scan logs that the filter column was not found and then does what the scan
  without filter does: same further log, same returned value. When moreover every row has a
  cell that is not NaN in a requested column of the header, it returns a result and logs
  nothing else.
\<close>

theorem filtro_ausente_prossegue_sem_filtro:
  assumes "existe csv" and "cabecalho csv = Some h" and "fc \<noteq> []" and "fc \<notin> set h"
    and "\<exists>c \<in> set cols. c \<in> set h"
  shows "analisar_frequencias ordenar n csv cols True (Some fc) kw
           = (ColunaFiltroNaoEncontrada # fst (analisar_frequencias ordenar n csv cols False None kw),
              snd (analisar_frequencias ordenar n csv cols False None kw))
       \<and> (0 < n \<and> (\<forall>linha \<in> set (linhas csv). \<exists>c \<in> set cols. c \<in> set h \<and> linha c \<noteq> None)
            \<longrightarrow> fst (analisar_frequencias ordenar n csv cols True (Some fc) kw)
                   = [ColunaFiltroNaoEncontrada]
              \<and> snd (analisar_frequencias ordenar n csv cols True (Some fc) kw) \<noteq> None)"
proof -
  let ?ex = "filter (\<lambda>c. c \<in> set h) cols"
  let ?p = "para_cada_chunk (processar_chunk None kw ?ex) acumulador_inicial
              (chunks_of n (linhas csv))"
  have x: "?ex \<noteq> []" using assms(5) by (auto simp: filter_empty_conv)
  note uf = analisar_frequencias_unfold [OF assms(1,2) x, of ordenar n True "Some fc" kw]
  note un = analisar_frequencias_unfold [OF assms(1,2) x, of ordenar n False None kw]
  have c1: "(True \<and> (\<exists>fc'. Some fc = Some fc' \<and> fc' \<noteq> [] \<and> fc' \<notin> set h)) = True"
    using assms(3,4) by simp
  have c2: "(True \<and> (\<exists>fc'. Some fc = Some fc' \<and> fc' \<in> set h)) = False"
    using assms(4) by simp
  have c3: "(True \<and> (Some fc = None \<or> Some fc = Some [])) = False"
    using assms(3) by simp
  have c4: "(False \<and> Q) = False" for Q by simp
  note uf' = uf [unfolded c1 c2 c3 if_True if_False]
  note un' = un [unfolded c4 if_False]
  have first: "analisar_frequencias ordenar n csv cols True (Some fc) kw
           = (ColunaFiltroNaoEncontrada # fst (analisar_frequencias ordenar n csv cols False None kw),
              snd (analisar_frequencias ordenar n csv cols False None kw))"
  proof (cases "n = 0")
    case True
    show ?thesis unfolding uf' un' using True by simp
  next
    case False
    show ?thesis
    proof (cases ?p)
      case None
      show ?thesis unfolding uf' un' None using False by simp
    next
      case (Some ac)
      show ?thesis unfolding uf' un' Some using False by simp
    qed
  qed
  have second: "fst (analisar_frequencias ordenar n csv cols True (Some fc) kw)
                   = [ColunaFiltroNaoEncontrada]
              \<and> snd (analisar_frequencias ordenar n csv cols True (Some fc) kw) \<noteq> None"
    if n: "0 < n" and r: "\<forall>linha \<in> set (linhas csv). \<exists>c \<in> set cols. c \<in> set h \<and> linha c \<noteq> None"
  proof -
    have "processar_chunk None kw ?ex a chunk \<noteq> None"
      if "chunk \<in> set (chunks_of n (linhas csv))" for chunk a
    proof (rule processar_chunk_sem_filtro_ok)
      show "chunk \<noteq> []" using chunks_of_rows [OF that] by simp
      show "\<forall>linha \<in> set chunk. \<exists>c \<in> set ?ex. linha c \<noteq> None"
      proof
        fix linha assume "linha \<in> set chunk"
        then have "linha \<in> set (linhas csv)" using chunks_of_rows [OF that] by blast
        then obtain c where "c \<in> set cols" "c \<in> set h" "linha c \<noteq> None" using r by blast
        then have "c \<in> set ?ex \<and> linha c \<noteq> None" by simp
        then show "\<exists>c \<in> set ?ex. linha c \<noteq> None" by blast
      qed
    qed
    then have "?p \<noteq> None" by (rule para_cada_chunk_ok)
    then obtain ac where p: "?p = Some ac" by auto
    show ?thesis unfolding uf' p using n by simp
  qed
  show ?thesis
  proof (rule conjI)
    show "analisar_frequencias ordenar n csv cols True (Some fc) kw
           = (ColunaFiltroNaoEncontrada # fst (analisar_frequencias ordenar n csv cols False None kw),
              snd (analisar_frequencias ordenar n csv cols False None kw))"
      by (rule first)
  next
    show "0 < n \<and> (\<forall>linha \<in> set (linhas csv). \<exists>c \<in> set cols. c \<in> set h \<and> linha c \<noteq> None)
            \<longrightarrow> fst (analisar_frequencias ordenar n csv cols True (Some fc) kw)
                   = [ColunaFiltroNaoEncontrada]
              \<and> snd (analisar_frequencias ordenar n csv cols True (Some fc) kw) \<noteq> None"
    proof
      assume a: "0 < n \<and> (\<forall>linha \<in> set (linhas csv). \<exists>c \<in> set cols. c \<in> set h \<and> linha c \<noteq> None)"
      from a have n: "0 < n" by (rule conjunct1)
      from a have r: "\<forall>linha \<in> set (linhas csv). \<exists>c \<in> set cols. c \<in> set h \<and> linha c \<noteq> None"
        by (rule conjunct2)
      show "fst (analisar_frequencias ordenar n csv cols True (Some fc) kw)
                   = [ColunaFiltroNaoEncontrada]
              \<and> snd (analisar_frequencias ordenar n csv cols True (Some fc) kw) \<noteq> None"
        using n r by (rule second)
    qed
  qed
qed

theorem filtro_ausente_prossegue_sem_filtro_witness:
  "fst (analisar_frequencias ordenar_desc 100000 fonte_parcial [''Polo ativo''] True
          (Some ''Polo passivo - Natureza juridica'') [''MUNICIPIO''])
     = [ColunaFiltroNaoEncontrada]
   \<and> snd (analisar_frequencias ordenar_desc 100000 fonte_parcial [''Polo ativo''] True
          (Some ''Polo passivo - Natureza juridica'') [''MUNICIPIO'']) \<noteq> None"
proof -
  have p1: "existe fonte_parcial" by (simp add: fonte_parcial_def)
  have p2: "cabecalho fonte_parcial = Some [''Polo ativo'', ''Tribunal'']"
    by (simp add: fonte_parcial_def)
  have p3: "''Polo passivo - Natureza juridica'' \<noteq> []" by simp
  have p4: "''Polo passivo - Natureza juridica'' \<notin> set [''Polo ativo'', ''Tribunal'']" by simp
  have p5: "\<exists>c \<in> set [''Polo ativo'']. c \<in> set [''Polo ativo'', ''Tribunal'']" by simp
  have h: "0 < (100000::nat) \<and> (\<forall>linha \<in> set (linhas fonte_parcial).
           \<exists>c \<in> set [''Polo ativo'']. c \<in> set [''Polo ativo'', ''Tribunal''] \<and> linha c \<noteq> None)"
    by (simp add: fonte_parcial_def)
  note t = filtro_ausente_prossegue_sem_filtro [OF p1 p2 p3 p4 p5, of ordenar_desc 100000 "[''MUNICIPIO'']"]
  from t have "0 < (100000::nat) \<and> (\<forall>linha \<in> set (linhas fonte_parcial).
           \<exists>c \<in> set [''Polo ativo'']. c \<in> set [''Polo ativo'', ''Tribunal''] \<and> linha c \<noteq> None)
     \<longrightarrow> fst (analisar_frequencias ordenar_desc 100000 fonte_parcial [''Polo ativo''] True
          (Some ''Polo passivo - Natureza juridica'') [''MUNICIPIO''])
     = [ColunaFiltroNaoEncontrada]
   \<and> snd (analisar_frequencias ordenar_desc 100000 fonte_parcial [''Polo ativo''] True
          (Some ''Polo passivo - Natureza juridica'') [''MUNICIPIO'']) \<noteq> None"
    by (rule conjunct2)
  then show ?thesis using h by (rule mp)
qed

lemma parse_exemplos:
  "parse_multi_valor (Some ''{A, B}'') = [''A'', ''B'']"
  "parse_multi_valor (Some ''{A}'') = [''A'']"
  "parse_multi_valor (Some ''{SIGILOSO}'') = [''SIGILOSO'']"
  by code_simp+

lemma upper_strip_exemplos:
  "upper (strip ''A'') = ''A''"
  "upper (strip ''B'') = ''B''"
  "upper (strip ''SIGILOSO'') = ''SIGILOSO''"
  by code_simp+

lemmas avaliar =
  analisar_frequencias_def analisar_frequencias_output_def analisar_frequencias_entes_publicos_def
  processar_chunk_def processar_chunk_output_def contar_coluna_def atualizar_coluna_def
  contar_item_def col_data_def List.map_filter_def montar_resultados_def finalizar_def
  finalizar_output_def resultado_vazio_def acumulador_inicial_def ordenar_desc_def
  consultar_def chunks_of.simps Let_def parse_exemplos upper_strip_exemplos

lemma retorno_Some: "snd x \<noteq> None \<Longrightarrow> x = (fst x, Some (the (snd x)))"
  by (cases x) auto

text \<open>
  Claim C9 as stated fails for \<open>analisar_frequencias\<close> of \<open>analise_output.py\<close>, whose result
  loop runs over the columns found in the header only: a requested column that the header
  lacks has no entry in the returned dictionary.
\<close>

theorem output_omits_absent_column:
  "consultar (snd (analisar_frequencias_output ordenar_desc 100000 fonte_parcial
                     [''Polo ativo'', ''Polo passivo''])) ''Polo passivo''
     = Some None"
  by (simp add: avaliar fonte_parcial_def)

text \<open>
  Claim C9, amended. Whenever \<open>analisar_frequencias\<close> of \<open>gerar_relatorio_analise_cnj.py\<close>
  returns a result, the result has an entry for every requested column and for no other,
  and the entry of a requested column missing from the header has an empty distribution, a
  total of zero and a confidential count of zero.
\<close>

theorem colunas_ausentes_com_entrada_vazia:
  assumes "analisar_frequencias ordenar n csv cols filtrar f kw = (msgs, Some res)"
    and "cabecalho csv = Some h"
  shows "dom res = set cols
       \<and> (\<forall>col \<in> set cols. col \<notin> set h \<longrightarrow>
            res col = Some \<lparr>contagens = Some [], total_ocorrencias = 0, contagem_sigiloso = 0\<rparr>)"
proof -
  from assms obtain ac where
    res: "res = montar_resultados ordenar ac (\<lambda>col. col \<in> set (filter (\<lambda>c. c \<in> set h) cols)) cols"
    by (rule analisar_frequencias_Some)
  have "dom res = set cols"
    unfolding res dom_def by (simp add: montar_resultados_lookup)
  moreover have "res col = Some \<lparr>contagens = Some [], total_ocorrencias = 0, contagem_sigiloso = 0\<rparr>"
    if "col \<in> set cols" and "col \<notin> set h" for col
    unfolding res using that by (simp add: montar_resultados_lookup resultado_vazio_def)
  ultimately show ?thesis by blast
qed

theorem colunas_ausentes_com_entrada_vazia_witness:
  "dom (the (snd (analisar_frequencias ordenar_desc 100000 fonte_parcial
                    [''Polo ativo'', ''Polo passivo''] False None [])))
     = {''Polo ativo'', ''Polo passivo''}
   \<and> the (snd (analisar_frequencias ordenar_desc 100000 fonte_parcial
                  [''Polo ativo'', ''Polo passivo''] False None [])) ''Polo passivo''
     = Some \<lparr>contagens = Some [], total_ocorrencias = 0, contagem_sigiloso = 0\<rparr>"
proof -
  let ?x = "analisar_frequencias ordenar_desc 100000 fonte_parcial
              [''Polo ativo'', ''Polo passivo''] False None []"
  have "snd ?x \<noteq> None" by (simp add: avaliar fonte_parcial_def)
  then have p1: "?x = (fst ?x, Some (the (snd ?x)))" by (rule retorno_Some)
  have p2: "cabecalho fonte_parcial = Some [''Polo ativo'', ''Tribunal'']"
    by (simp add: fonte_parcial_def)
  note t = colunas_ausentes_com_entrada_vazia [OF p1 p2]
  from t have "dom (the (snd ?x)) = set [''Polo ativo'', ''Polo passivo'']" by (rule conjunct1)
  moreover from t have "the (snd ?x) ''Polo passivo''
      = Some \<lparr>contagens = Some [], total_ocorrencias = 0, contagem_sigiloso = 0\<rparr>"
    by simp
  ultimately show ?thesis by simp
qed

text \<open>
  The outcome of a scan depends on the chunk size. The file \<open>fonte_linha_vazia\<close> has two
  rows; the first has no value in the analysed column. Read in chunks of one row, the first
  chunk binds no \<open>items_parsed\<close>, the \<open>del\<close> statement at the end of the loop body raises,
  and \<open>analisar_frequencias\<close> logs the unexpected error and returns \<open>None\<close>. Read in
  chunks of two rows, the same file gives a result. \<open>analisar_frequencias\<close> of
  \<open>analise_output.py\<close> does the same with \<open>items_exploded\<close>.
\<close>

lemma chunksize_um_e_dois:
  "fst (analisar_frequencias ordenar_desc 1 fonte_linha_vazia [''Polo ativo''] False None [])
     = [ErroInesperado]
   \<and> consultar (snd (analisar_frequencias ordenar_desc 1 fonte_linha_vazia
                       [''Polo ativo''] False None [])) ''Polo ativo''
     = None
   \<and> fst (analisar_frequencias ordenar_desc 2 fonte_linha_vazia [''Polo ativo''] False None [])
     = []
   \<and> consultar (snd (analisar_frequencias ordenar_desc 2 fonte_linha_vazia
                       [''Polo ativo''] False None [])) ''Polo ativo''
     = Some (Some \<lparr>contagens = Some [(''A'', 1)], total_ocorrencias = 1, contagem_sigiloso = 0\<rparr>)
   \<and> fst (analisar_frequencias_output ordenar_desc 1 fonte_linha_vazia [''Polo ativo''])
     = [ErroInesperado]
   \<and> consultar (snd (analisar_frequencias_output ordenar_desc 1 fonte_linha_vazia
                       [''Polo ativo''])) ''Polo ativo''
     = None
   \<and> consultar (snd (analisar_frequencias_output ordenar_desc 2 fonte_linha_vazia
                       [''Polo ativo''])) ''Polo ativo''
     = Some (Some \<lparr>contagens = Some [(''A'', 1)], total_ocorrencias = 1, contagem_sigiloso = 0\<rparr>)"
  by (simp add: avaliar fonte_linha_vazia_def)

text \<open>
  Claim C2 as stated fails for \<open>analisar_frequencias\<close> of \<open>analise_output.py\<close>, which has no
  confidential count: the token \<open>SIGILOSO\<close> is counted in the distribution like any other.
\<close>

theorem output_counts_sigiloso:
  "consultar (snd (analisar_frequencias_output ordenar_desc 100000 fonte_parcial [''Polo ativo'']))
      ''Polo ativo''
   = Some (Some \<lparr>contagens = Some [(''A'', 2), (''B'', 1), (''SIGILOSO'', 1)],
                  total_ocorrencias = 4, contagem_sigiloso = 0\<rparr>)"
  by (simp add: avaliar fonte_parcial_def)

section \<open>Properties of the frequency accumulator\<close>

lemma count_of_counter_inc:
  "count_of (counter_inc k c) k' = count_of c k' + (if k' = k then 1 else 0)"
  by (induction k c rule: counter_inc.induct) (auto simp: count_of_def)

lemma keys_counter_inc: "fst ` set (counter_inc k c) = insert k (fst ` set c)"
  by (induction k c rule: counter_inc.induct) auto

lemma contar_item_outra_coluna:
  "c \<noteq> coluna \<Longrightarrow> contadores (contar_item coluna ac item) c = contadores ac c
                  \<and> sigilosos (contar_item coluna ac item) c = sigilosos ac c"
  by (simp add: contar_item_def Let_def)

lemma contar_itens_outra_coluna:
  "c \<noteq> coluna \<Longrightarrow> contadores (foldl (contar_item coluna) ac items) c = contadores ac c
                  \<and> sigilosos (foldl (contar_item coluna) ac items) c = sigilosos ac c"
  by (induction items arbitrary: ac) (simp_all add: contar_item_outra_coluna)

lemma contar_listas_outra_coluna:
  "c \<noteq> coluna \<Longrightarrow>
     contadores (foldl (\<lambda>a lista. foldl (contar_item coluna) a lista) ac listas) c = contadores ac c
   \<and> sigilosos (foldl (\<lambda>a lista. foldl (contar_item coluna) a lista) ac listas) c = sigilosos ac c"
  by (induction listas arbitrary: ac) (simp_all add: contar_itens_outra_coluna)

lemma contar_coluna_outra_coluna:
  "c \<noteq> coluna \<Longrightarrow> contadores (contar_coluna chunk ac coluna) c = contadores ac c
                  \<and> sigilosos (contar_coluna chunk ac coluna) c = sigilosos ac c"
  by (simp add: contar_coluna_def Let_def contar_listas_outra_coluna)

lemma contar_listas_vazias:
  "\<forall>lista \<in> set listas. lista = [] \<Longrightarrow>
     foldl (\<lambda>a lista. foldl (contar_item coluna) a lista) ac listas = ac"
  by (induction listas arbitrary: ac) simp_all

lemma col_data_set: "v \<in> set (col_data chunk coluna) \<longleftrightarrow> (\<exists>linha \<in> set chunk. linha coluna = Some v)"
  by (force simp: col_data_def List.map_filter_def)

lemma contar_coluna_sem_tokens:
  assumes "\<forall>linha \<in> set chunk. parse_multi_valor (linha coluna) = []"
  shows "contar_coluna chunk ac coluna = ac"
proof -
  have "\<forall>lista \<in> set (map (\<lambda>v. parse_multi_valor (Some v)) (col_data chunk coluna)). lista = []"
  proof
    fix lista assume "lista \<in> set (map (\<lambda>v. parse_multi_valor (Some v)) (col_data chunk coluna))"
    then obtain v where v: "v \<in> set (col_data chunk coluna)" and l: "lista = parse_multi_valor (Some v)"
      by auto
    from v obtain linha where "linha \<in> set chunk" "linha coluna = Some v"
      by (auto simp: col_data_set)
    with assms l show "lista = []" by force
  qed
  then show ?thesis by (simp add: contar_coluna_def Let_def contar_listas_vazias)
qed

lemma contar_colunas_sem_tokens:
  assumes "\<forall>linha \<in> set chunk. parse_multi_valor (linha col) = []"
  shows "contadores (foldl (contar_coluna chunk) ac cols) col = contadores ac col
       \<and> sigilosos (foldl (contar_coluna chunk) ac cols) col = sigilosos ac col"
proof (induction cols arbitrary: ac)
  case Nil
  then show ?case by simp
next
  case (Cons c cs)
  show ?case
  proof (cases "c = col")
    case True
    then have "contar_coluna chunk ac c = ac" using assms by (simp add: contar_coluna_sem_tokens)
    then show ?thesis using Cons by simp
  next
    case False
    then have "contadores (contar_coluna chunk ac c) col = contadores ac col
             \<and> sigilosos (contar_coluna chunk ac c) col = sigilosos ac col"
      using contar_coluna_outra_coluna [of col c chunk ac] by simp
    then show ?thesis using Cons [of "contar_coluna chunk ac c"] by simp
  qed
qed

lemma chunk_processar_observadas:
  "(case filtro of None \<Rightarrow> chunk
    | Some coluna_filtro \<Rightarrow> filter (\<lambda>linha. eh_ente_publico (linha coluna_filtro) kw) chunk)
   = filter (linha_observada filtro kw) chunk"
proof (cases filtro)
  case None
  then show ?thesis by (simp add: linha_observada_def)
next
  case (Some cf)
  have "linha_observada (Some cf) kw = (\<lambda>linha. eh_ente_publico (linha cf) kw)"
    by (rule ext) (simp add: linha_observada_def)
  then show ?thesis using Some by simp
qed

lemma processar_chunk_sem_tokens:
  assumes "processar_chunk filtro kw cols ac chunk = Some ac'"
    and "\<forall>linha \<in> set chunk. linha_observada filtro kw linha \<longrightarrow> parse_multi_valor (linha col) = []"
  shows "contadores ac' col = contadores ac col \<and> sigilosos ac' col = sigilosos ac col"
proof -
  let ?cp = "filter (linha_observada filtro kw) chunk"
  have s: "\<forall>linha \<in> set ?cp. parse_multi_valor (linha col) = []" using assms(2) by simp
  have "ac' = ac \<or> ac' = foldl (contar_coluna ?cp) ac cols"
    using assms(1) unfolding processar_chunk_def chunk_processar_observadas Let_def
    by (auto split: if_splits)
  then show ?thesis using contar_colunas_sem_tokens [OF s] by auto
qed

lemma para_cada_chunk_sem_tokens:
  assumes "para_cada_chunk (processar_chunk filtro kw cols) ac chunks = Some ac'"
    and "\<forall>chunk \<in> set chunks. \<forall>linha \<in> set chunk.
           linha_observada filtro kw linha \<longrightarrow> parse_multi_valor (linha col) = []"
  shows "contadores ac' col = contadores ac col \<and> sigilosos ac' col = sigilosos ac col"
  using assms
proof (induction chunks arbitrary: ac)
  case Nil
  then show ?case by simp
next
  case (Cons c cs)
  from Cons.prems(1) obtain a where a: "processar_chunk filtro kw cols ac c = Some a"
    and r: "para_cada_chunk (processar_chunk filtro kw cols) a cs = Some ac'"
    by (auto split: option.splits)
  have "contadores a col = contadores ac col \<and> sigilosos a col = sigilosos ac col"
    using a Cons.prems(2) by (intro processar_chunk_sem_tokens) auto
  moreover have "contadores ac' col = contadores a col \<and> sigilosos ac' col = sigilosos a col"
    using r Cons.prems(2) by (intro Cons.IH) auto
  ultimately show ?case by simp
qed

lemma varredura_sem_tokens:
  assumes "para_cada_chunk (processar_chunk filtro kw cols) acumulador_inicial (chunks_of n rows) = Some ac"
    and "\<forall>linha \<in> set rows. linha_observada filtro kw linha \<longrightarrow> parse_multi_valor (linha col) = []"
  shows "contadores ac col = [] \<and> sigilosos ac col = 0"
proof -
  have "\<forall>chunk \<in> set (chunks_of n rows). \<forall>linha \<in> set chunk.
           linha_observada filtro kw linha \<longrightarrow> parse_multi_valor (linha col) = []"
    using assms(2) chunks_of_rows by blast
  from para_cada_chunk_sem_tokens [OF assms(1) this]
  show ?thesis by (simp add: acumulador_inicial_def)
qed

lemma sum_list_mset_cong:
  assumes "mset xs = mset (ys :: (string \<times> nat) list)"
  shows "sum_list (map snd xs) = sum_list (map snd ys)"
proof -
  have "mset (map snd xs) = mset (map snd ys)" using assms by (metis mset_map)
  then show ?thesis by (metis sum_mset_sum_list)
qed

lemma finalizar_soma:
  assumes "\<forall>c. mset (ordenar c) = mset c"
  shows "\<exists>d. contagens (finalizar ordenar ac col) = Some d
           \<and> sum_list (map snd d) + contagem_sigiloso (finalizar ordenar ac col)
               = total_ocorrencias (finalizar ordenar ac col)"
proof -
  have "sum_list (map snd (ordenar (contadores ac col))) = sum_list (map snd (contadores ac col))"
    using assms by (intro sum_list_mset_cong) simp
  then show ?thesis by (simp add: finalizar_def Let_def resultado_vazio_def)
qed

lemma finalizar_sem_tokens:
  "contadores ac col = [] \<Longrightarrow> sigilosos ac col = 0 \<Longrightarrow> finalizar ordenar ac col = resultado_vazio"
  by (simp add: finalizar_def)

lemma inserir_desc_mset: "mset (inserir_desc x c) = add_mset x (mset c)"
  by (induction c) auto

lemma ordenar_desc_mset: "mset (ordenar_desc c) = mset c"
  unfolding ordenar_desc_def by (induction c) (simp_all add: inserir_desc_mset)

lemma entes_publicos_Some:
  assumes "analisar_frequencias_entes_publicos ordenar n csv cols cf kw = (msgs, Some res)"
    and "cabecalho csv = Some h"
  obtains ac cs where "res = montar_resultados ordenar ac (\<lambda>col. col \<in> set h) cols"
    and "para_cada_chunk (processar_chunk (Some cf) kw cs)
           acumulador_inicial (chunks_of n (linhas csv)) = Some ac"
proof -
  define ex where "ex = filter (\<lambda>c. c \<in> set h) (cols @ [cf])"
  define p where "p = para_cada_chunk
           (processar_chunk (Some cf) kw (filter (\<lambda>col. col \<in> set ex) cols))
           acumulador_inicial (chunks_of n (linhas csv))"
  have e: "existe csv"
    using assms(1) by (cases "existe csv") (simp_all add: analisar_frequencias_entes_publicos_def)
  have u: "analisar_frequencias_entes_publicos ordenar n csv cols cf kw =
             (if ex = [] \<or> cf \<notin> set ex then ([ColunasEssenciaisNaoEncontradas], None)
              else if n = 0 then ([ErroInesperado], None)
              else case p of None \<Rightarrow> ([ErroInesperado], None)
                | Some ac \<Rightarrow> ([], Some (montar_resultados ordenar ac (\<lambda>col. col \<in> set h) cols)))"
    unfolding analisar_frequencias_entes_publicos_def Let_def ex_def p_def
    using e assms(2) by simp
  show ?thesis
  proof (cases "ex = [] \<or> cf \<notin> set ex")
    case True
    with u assms(1) show ?thesis by simp
  next
    case c: False
    show ?thesis
    proof (cases "n = 0")
      case True
      with u c assms(1) show ?thesis by simp
    next
      case n: False
      show ?thesis
      proof (cases p)
        case None
        with u c n assms(1) show ?thesis by simp
      next
        case (Some ac)
        with u c n assms(1) have "res = montar_resultados ordenar ac (\<lambda>col. col \<in> set h) cols"
          by simp
        with Some that show ?thesis unfolding p_def by blast
      qed
    qed
  qed
qed

lemma resultado_invariante:
  assumes "\<forall>c. mset (ordenar c) = mset c"
    and "para_cada_chunk (processar_chunk filtro kw cs) acumulador_inicial (chunks_of n rows) = Some ac"
    and "presente col" and "col \<in> set cols"
  shows "\<exists>r d. montar_resultados ordenar ac presente cols col = Some r \<and> contagens r = Some d
           \<and> sum_list (map snd d) + contagem_sigiloso r = total_ocorrencias r
           \<and> ((\<forall>linha \<in> set rows. linha_observada filtro kw linha
                   \<longrightarrow> parse_multi_valor (linha col) = [])
                \<longrightarrow> d = [] \<and> total_ocorrencias r = 0)"
proof -
  let ?r = "finalizar ordenar ac col"
  have l: "montar_resultados ordenar ac presente cols col = Some ?r"
    using assms(3,4) by (simp add: montar_resultados_lookup)
  from finalizar_soma [OF assms(1), of ac col] obtain d where
    d: "contagens ?r = Some d"
    and s: "sum_list (map snd d) + contagem_sigiloso ?r = total_ocorrencias ?r"
    by blast
  have "d = [] \<and> total_ocorrencias ?r = 0"
    if "\<forall>linha \<in> set rows. linha_observada filtro kw linha \<longrightarrow> parse_multi_valor (linha col) = []"
  proof -
    from varredura_sem_tokens [OF assms(2) that]
    have "?r = resultado_vazio" by (simp add: finalizar_sem_tokens)
    with d show ?thesis by (simp add: resultado_vazio_def)
  qed
  with l d s show ?thesis by blast
qed

text \<open>
  Claim C1. Whenever \<open>analisar_frequencias\<close> of \<open>gerar_relatorio_analise_cnj.py\<close> or
  \<open>analisar_frequencias_entes_publicos\<close> of \<open>analise_output_sus.py\<close> returns a result, the
  entry of every requested column of the header has a distribution whose counts, added to
  the confidential count, give \<open>total_ocorrencias\<close>; and when no counted row has a token in
  that column, the distribution is empty and the total is zero. The sort is any function
  that permutes its argument.
\<close>

theorem total_ocorrencias_invariante:
  assumes "\<forall>c. mset (ordenar c) = mset c" and "cabecalho csv = Some h"
    and "col \<in> set cols" and "col \<in> set h"
  shows "(analisar_frequencias ordenar n csv cols filtrar f kw = (msgs, Some res) \<longrightarrow>
            (\<exists>r d. res col = Some r \<and> contagens r = Some d
               \<and> sum_list (map snd d) + contagem_sigiloso r = total_ocorrencias r
               \<and> ((\<forall>linha \<in> set (linhas csv).
                      linha_observada
                        (if filtrar \<and> (\<exists>fc. f = Some fc \<and> fc \<in> set h) then f else None) kw linha
                      \<longrightarrow> parse_multi_valor (linha col) = [])
                    \<longrightarrow> d = [] \<and> total_ocorrencias r = 0)))
       \<and> (analisar_frequencias_entes_publicos ordenar n csv cols cf kw = (msgs', Some res') \<longrightarrow>
            (\<exists>r d. res' col = Some r \<and> contagens r = Some d
               \<and> sum_list (map snd d) + contagem_sigiloso r = total_ocorrencias r
               \<and> ((\<forall>linha \<in> set (linhas csv).
                      linha_observada (Some cf) kw linha \<longrightarrow> parse_multi_valor (linha col) = [])
                    \<longrightarrow> d = [] \<and> total_ocorrencias r = 0)))"
proof (intro conjI impI)
  assume a: "analisar_frequencias ordenar n csv cols filtrar f kw = (msgs, Some res)"
  from a assms(2) obtain ac where
    res: "res = montar_resultados ordenar ac (\<lambda>col. col \<in> set (filter (\<lambda>c. c \<in> set h) cols)) cols"
    and p: "para_cada_chunk
           (processar_chunk (if filtrar \<and> (\<exists>fc. f = Some fc \<and> fc \<in> set h) then f else None) kw
              (filter (\<lambda>c. c \<in> set h) cols))
           acumulador_inicial (chunks_of n (linhas csv)) = Some ac"
    by (rule analisar_frequencias_Some)
  have pr: "col \<in> set (filter (\<lambda>c. c \<in> set h) cols)" using assms(3,4) by simp
  show "\<exists>r d. res col = Some r \<and> contagens r = Some d
               \<and> sum_list (map snd d) + contagem_sigiloso r = total_ocorrencias r
               \<and> ((\<forall>linha \<in> set (linhas csv).
                      linha_observada
                        (if filtrar \<and> (\<exists>fc. f = Some fc \<and> fc \<in> set h) then f else None) kw linha
                      \<longrightarrow> parse_multi_valor (linha col) = [])
                    \<longrightarrow> d = [] \<and> total_ocorrencias r = 0)"
    unfolding res
    by (rule resultado_invariante
          [where presente = "\<lambda>col. col \<in> set (filter (\<lambda>c. c \<in> set h) cols)" and col = col,
           OF assms(1) p pr assms(3)])
next
  assume a: "analisar_frequencias_entes_publicos ordenar n csv cols cf kw = (msgs', Some res')"
  from a assms(2) obtain ac cs where
    res: "res' = montar_resultados ordenar ac (\<lambda>col. col \<in> set h) cols"
    and p: "para_cada_chunk (processar_chunk (Some cf) kw cs)
           acumulador_inicial (chunks_of n (linhas csv)) = Some ac"
    by (rule entes_publicos_Some)
  show "\<exists>r d. res' col = Some r \<and> contagens r = Some d
               \<and> sum_list (map snd d) + contagem_sigiloso r = total_ocorrencias r
               \<and> ((\<forall>linha \<in> set (linhas csv).
                      linha_observada (Some cf) kw linha \<longrightarrow> parse_multi_valor (linha col) = [])
                    \<longrightarrow> d = [] \<and> total_ocorrencias r = 0)"
    unfolding res
    by (rule resultado_invariante
          [where presente = "\<lambda>col. col \<in> set h" and col = col, OF assms(1) p assms(4) assms(3)])
qed

theorem total_ocorrencias_invariante_witness:
  "\<exists>r d. the (snd (analisar_frequencias ordenar_desc 100000 fonte_parcial
                      [''Polo ativo'', ''Tribunal''] False None [])) ''Polo ativo'' = Some r
      \<and> contagens r = Some d
      \<and> sum_list (map snd d) + contagem_sigiloso r = total_ocorrencias r"
proof -
  let ?x = "analisar_frequencias ordenar_desc 100000 fonte_parcial
              [''Polo ativo'', ''Tribunal''] False None []"
  have "snd ?x \<noteq> None" by (simp add: avaliar fonte_parcial_def)
  then have p0: "?x = (fst ?x, Some (the (snd ?x)))" by (rule retorno_Some)
  have p1: "\<forall>c. mset (ordenar_desc c) = mset c" by (simp add: ordenar_desc_mset)
  have p2: "cabecalho fonte_parcial = Some [''Polo ativo'', ''Tribunal'']"
    by (simp add: fonte_parcial_def)
  have p3: "''Polo ativo'' \<in> set [''Polo ativo'', ''Tribunal'']" by simp
  note t = total_ocorrencias_invariante [OF p1 p2 p3 p3, of 100000 False None "[]" "fst ?x" "the (snd ?x)",
             THEN conjunct1, THEN mp, OF p0]
  then show ?thesis by blast
qed

lemma chaves_validas_inicial: "chaves_validas acumulador_inicial"
  by (simp add: chaves_validas_def acumulador_inicial_def)

lemma contar_item_chaves:
  assumes "chaves_validas ac"
  shows "chaves_validas (contar_item coluna ac item)"
proof (cases "upper (strip item) = ''SIGILOSO'' \<or> upper (strip item) = []")
  case True
  then have "contadores (contar_item coluna ac item) = contadores ac"
    by (auto simp: contar_item_def)
  then show ?thesis using assms by (simp add: chaves_validas_def)
next
  case False
  then have c: "contadores (contar_item coluna ac item)
             = (contadores ac)(coluna := counter_inc item (contadores ac coluna))"
    by (simp add: contar_item_def)
  show ?thesis
    unfolding chaves_validas_def
  proof (intro allI ballI)
    fix c k assume k: "k \<in> fst ` set (contadores (contar_item coluna ac item) c)"
    show "upper (strip k) \<noteq> ''SIGILOSO'' \<and> upper (strip k) \<noteq> []"
    proof (cases "c = coluna")
      case True
      with k c have "k \<in> insert item (fst ` set (contadores ac coluna))"
        by (simp add: keys_counter_inc)
      then show ?thesis using False assms unfolding chaves_validas_def by blast
    next
      case False
      with k c have "k \<in> fst ` set (contadores ac c)" by simp
      then show ?thesis using assms unfolding chaves_validas_def by blast
    qed
  qed
qed

lemma contar_itens_chaves:
  "chaves_validas ac \<Longrightarrow> chaves_validas (foldl (contar_item coluna) ac items)"
  by (induction items arbitrary: ac) (simp_all add: contar_item_chaves)

lemma contar_listas_chaves:
  "chaves_validas ac \<Longrightarrow>
     chaves_validas (foldl (\<lambda>a lista. foldl (contar_item coluna) a lista) ac listas)"
  by (induction listas arbitrary: ac) (simp_all add: contar_itens_chaves)

lemma contar_coluna_chaves: "chaves_validas ac \<Longrightarrow> chaves_validas (contar_coluna chunk ac coluna)"
  by (simp add: contar_coluna_def Let_def contar_listas_chaves)

lemma contar_colunas_chaves:
  "chaves_validas ac \<Longrightarrow> chaves_validas (foldl (contar_coluna chunk) ac cols)"
  by (induction cols arbitrary: ac) (simp_all add: contar_coluna_chaves)

lemma processar_chunk_chaves:
  assumes "processar_chunk filtro kw cols ac chunk = Some ac'" and "chaves_validas ac"
  shows "chaves_validas ac'"
proof -
  let ?cp = "filter (linha_observada filtro kw) chunk"
  have "ac' = ac \<or> ac' = foldl (contar_coluna ?cp) ac cols"
    using assms(1) unfolding processar_chunk_def chunk_processar_observadas Let_def
    by (auto split: if_splits)
  then show ?thesis using assms(2) contar_colunas_chaves by auto
qed

lemma para_cada_chunk_chaves:
  assumes "para_cada_chunk (processar_chunk filtro kw cols) ac chunks = Some ac'"
    and "chaves_validas ac"
  shows "chaves_validas ac'"
  using assms
proof (induction chunks arbitrary: ac)
  case Nil
  then show ?case by simp
next
  case (Cons c cs)
  from Cons.prems(1) obtain a where a: "processar_chunk filtro kw cols ac c = Some a"
    and r: "para_cada_chunk (processar_chunk filtro kw cols) a cs = Some ac'"
    by (auto split: option.splits)
  have "chaves_validas a" using a Cons.prems(2) by (rule processar_chunk_chaves)
  with r show ?case by (rule Cons.IH)
qed

lemma finalizar_chaves:
  assumes "\<forall>c. mset (ordenar c) = mset c" and "chaves_validas ac"
    and "contagens (finalizar ordenar ac col) = Some d" and "k \<in> fst ` set d"
  shows "upper (strip k) \<noteq> ''SIGILOSO'' \<and> upper (strip k) \<noteq> []"
proof -
  have "set (ordenar (contadores ac col)) = set (contadores ac col)"
    using assms(1) by (metis set_mset_mset)
  then have "set d \<subseteq> set (contadores ac col)"
    using assms(3) by (auto simp: finalizar_def Let_def resultado_vazio_def split: if_splits)
  then have "k \<in> fst ` set (contadores ac col)" using assms(4) by auto
  then show ?thesis using assms(2) unfolding chaves_validas_def by blast
qed

text \<open>
  Claim C2, amended. In the loops of \<open>gerar_relatorio_analise_cnj.py\<close> and
  \<open>analise_output_sus.py\<close>, a token whose stripped uppercased form is \<open>SIGILOSO\<close> adds one to
  the confidential count of its column and changes nothing else; any other token whose
  stripped uppercased form is not empty adds one to the count stored under the token as
  written, in its column, and changes nothing else; a token whose stripped uppercased form
  is empty changes nothing. No key of a distribution returned by \<open>analisar_frequencias\<close> of
  \<open>gerar_relatorio_analise_cnj.py\<close> or by \<open>analisar_frequencias_entes_publicos\<close> has the
  stripped uppercased form \<open>SIGILOSO\<close>. The sort is any function that permutes its argument.
\<close>

theorem contar_item_sigiloso:
  "(upper (strip item) = ''SIGILOSO'' \<longrightarrow>
      sigilosos (contar_item coluna ac item) coluna = sigilosos ac coluna + 1
      \<and> (\<forall>c. c \<noteq> coluna \<longrightarrow> sigilosos (contar_item coluna ac item) c = sigilosos ac c)
      \<and> contadores (contar_item coluna ac item) = contadores ac)
   \<and> (upper (strip item) \<noteq> ''SIGILOSO'' \<and> upper (strip item) \<noteq> [] \<longrightarrow>
      sigilosos (contar_item coluna ac item) = sigilosos ac
      \<and> (\<forall>c k. count_of (contadores (contar_item coluna ac item) c) k
                  = count_of (contadores ac c) k + (if c = coluna \<and> k = item then 1 else 0)))
   \<and> (upper (strip item) = [] \<longrightarrow> contar_item coluna ac item = ac)
   \<and> ((\<forall>c. mset (ordenar c) = mset c)
        \<and> analisar_frequencias ordenar n csv cols filtrar f kw = (msgs, Some res)
        \<and> res col = Some r \<and> contagens r = Some d \<and> k' \<in> fst ` set d
      \<longrightarrow> upper (strip k') \<noteq> ''SIGILOSO'')
   \<and> ((\<forall>c. mset (ordenar c) = mset c)
        \<and> analisar_frequencias_entes_publicos ordenar n csv cols cf kw = (msgs, Some res)
        \<and> res col = Some r \<and> contagens r = Some d \<and> k' \<in> fst ` set d
      \<longrightarrow> upper (strip k') \<noteq> ''SIGILOSO'')"
proof (intro conjI impI)
  assume "upper (strip item) = ''SIGILOSO''"
  then show "sigilosos (contar_item coluna ac item) coluna = sigilosos ac coluna + 1"
    and "\<forall>c. c \<noteq> coluna \<longrightarrow> sigilosos (contar_item coluna ac item) c = sigilosos ac c"
    and "contadores (contar_item coluna ac item) = contadores ac"
    by (simp_all add: contar_item_def)
next
  assume a: "upper (strip item) \<noteq> ''SIGILOSO'' \<and> upper (strip item) \<noteq> []"
  then show "sigilosos (contar_item coluna ac item) = sigilosos ac"
    by (simp add: contar_item_def)
  from a show "\<forall>c k. count_of (contadores (contar_item coluna ac item) c) k
                  = count_of (contadores ac c) k + (if c = coluna \<and> k = item then 1 else 0)"
    by (simp add: contar_item_def count_of_counter_inc)
next
  assume "upper (strip item) = []"
  then show "contar_item coluna ac item = ac" by (simp add: contar_item_def)
next
  assume a: "(\<forall>c. mset (ordenar c) = mset c)
        \<and> analisar_frequencias ordenar n csv cols filtrar f kw = (msgs, Some res)
        \<and> res col = Some r \<and> contagens r = Some d \<and> k' \<in> fst ` set d"
  then have s: "analisar_frequencias ordenar n csv cols filtrar f kw = (msgs, Some res)" by simp
  then obtain h where h: "cabecalho csv = Some h"
    by (cases "cabecalho csv"; cases "existe csv") (simp_all add: analisar_frequencias_def)
  from s h obtain ac where
    res: "res = montar_resultados ordenar ac (\<lambda>col. col \<in> set (filter (\<lambda>c. c \<in> set h) cols)) cols"
    and p: "para_cada_chunk
           (processar_chunk (if filtrar \<and> (\<exists>fc. f = Some fc \<and> fc \<in> set h) then f else None) kw
              (filter (\<lambda>c. c \<in> set h) cols))
           acumulador_inicial (chunks_of n (linhas csv)) = Some ac"
    by (rule analisar_frequencias_Some)
  have v: "chaves_validas ac" using p chaves_validas_inicial by (rule para_cada_chunk_chaves)
  from a have rc: "res col = Some r" and d: "contagens r = Some d" and k: "k' \<in> fst ` set d"
    and m: "\<forall>c. mset (ordenar c) = mset c"
    by simp_all
  have "r = resultado_vazio \<or> r = finalizar ordenar ac col"
    using rc unfolding res by (auto simp: montar_resultados_lookup split: if_splits)
  then show "upper (strip k') \<noteq> ''SIGILOSO''"
  proof
    assume "r = resultado_vazio"
    with d k show ?thesis by (simp add: resultado_vazio_def)
  next
    assume "r = finalizar ordenar ac col"
    with d have "contagens (finalizar ordenar ac col) = Some d" by simp
    from finalizar_chaves [OF m v this k] show ?thesis by simp
  qed
next
  assume a: "(\<forall>c. mset (ordenar c) = mset c)
        \<and> analisar_frequencias_entes_publicos ordenar n csv cols cf kw = (msgs, Some res)
        \<and> res col = Some r \<and> contagens r = Some d \<and> k' \<in> fst ` set d"
  then have s: "analisar_frequencias_entes_publicos ordenar n csv cols cf kw = (msgs, Some res)"
    by simp
  then obtain h where h: "cabecalho csv = Some h"
    by (cases "cabecalho csv"; cases "existe csv")
       (simp_all add: analisar_frequencias_entes_publicos_def)
  from s h obtain ac cs where
    res: "res = montar_resultados ordenar ac (\<lambda>col. col \<in> set h) cols"
    and p: "para_cada_chunk (processar_chunk (Some cf) kw cs)
           acumulador_inicial (chunks_of n (linhas csv)) = Some ac"
    by (rule entes_publicos_Some)
  have v: "chaves_validas ac" using p chaves_validas_inicial by (rule para_cada_chunk_chaves)
  from a have rc: "res col = Some r" and d: "contagens r = Some d" and k: "k' \<in> fst ` set d"
    and m: "\<forall>c. mset (ordenar c) = mset c"
    by simp_all
  have "r = resultado_vazio \<or> r = finalizar ordenar ac col"
    using rc unfolding res by (auto simp: montar_resultados_lookup split: if_splits)
  then show "upper (strip k') \<noteq> ''SIGILOSO''"
  proof
    assume "r = resultado_vazio"
    with d k show ?thesis by (simp add: resultado_vazio_def)
  next
    assume "r = finalizar ordenar ac col"
    with d have "contagens (finalizar ordenar ac col) = Some d" by simp
    from finalizar_chaves [OF m v this k] show ?thesis by simp
  qed
qed

theorem contar_item_sigiloso_witness:
  "sigilosos (contar_item ''Polo ativo'' acumulador_inicial ''Sigiloso'') ''Polo ativo'' = 1
   \<and> contadores (contar_item ''Polo ativo'' acumulador_inicial ''Sigiloso'') ''Polo ativo'' = []
   \<and> count_of (contadores (contar_item ''Polo ativo'' acumulador_inicial ''Uniao'') ''Polo ativo'')
        ''Uniao'' = 1
   \<and> count_of (contadores (contar_item ''Polo ativo'' acumulador_inicial ''Uniao'') ''Polo ativo'')
        ''UNIAO'' = 0"
proof -
  have u1: "upper (strip ''Sigiloso'') = ''SIGILOSO''" by code_simp
  have u2: "upper (strip ''Uniao'') \<noteq> ''SIGILOSO'' \<and> upper (strip ''Uniao'') \<noteq> []" by code_simp
  note t1 = contar_item_sigiloso [of "''Sigiloso''" "''Polo ativo''" acumulador_inicial,
              THEN conjunct1, THEN mp, OF u1]
  note t2 = contar_item_sigiloso [of "''Uniao''" "''Polo ativo''" acumulador_inicial,
              THEN conjunct2, THEN conjunct1, THEN mp, OF u2]
  from t1 have a: "sigilosos (contar_item ''Polo ativo'' acumulador_inicial ''Sigiloso'') ''Polo ativo'' = 1"
    and b: "contadores (contar_item ''Polo ativo'' acumulador_inicial ''Sigiloso'') ''Polo ativo'' = []"
    by (simp_all add: acumulador_inicial_def)
  from t2 have c: "count_of (contadores (contar_item ''Polo ativo'' acumulador_inicial ''Uniao'') ''Polo ativo'')
        ''Uniao'' = 1"
    and d: "count_of (contadores (contar_item ''Polo ativo'' acumulador_inicial ''Uniao'') ''Polo ativo'')
        ''UNIAO'' = 0"
    by (simp_all add: acumulador_inicial_def count_of_def)
  from a b c d show ?thesis by simp
qed

section \<open>Chunk boundaries in scans that complete\<close>

lemma mesma_coluna_refl: "mesma_coluna c ac ac"
  by (simp add: mesma_coluna_def)

lemma mesma_coluna_trans:
  "mesma_coluna c a b \<Longrightarrow> mesma_coluna c b d \<Longrightarrow> mesma_coluna c a d"
  by (simp add: mesma_coluna_def)

lemma contar_item_mesma:
  "mesma_coluna c ac ac' \<Longrightarrow> mesma_coluna c (contar_item c ac item) (contar_item c ac' item)"
  by (simp add: mesma_coluna_def contar_item_def Let_def)

lemma contar_itens_mesma:
  "mesma_coluna c ac ac'
     \<Longrightarrow> mesma_coluna c (foldl (contar_item c) ac items) (foldl (contar_item c) ac' items)"
  by (induction items arbitrary: ac ac') (simp_all add: contar_item_mesma)

lemma contar_itens_outra:
  "d \<noteq> c \<Longrightarrow> mesma_coluna c (foldl (contar_item d) ac items) ac"
  using contar_itens_outra_coluna [of c d ac items] by (simp add: mesma_coluna_def)

lemma foldl_foldl_concat: "foldl (\<lambda>a xs. foldl f a xs) a xss = foldl f a (concat xss)"
  by (induction xss arbitrary: a) simp_all

lemma contar_coluna_tokens:
  "contar_coluna chunk ac c = foldl (contar_item c) ac (tokens_coluna chunk c)"
  by (simp add: contar_coluna_def tokens_coluna_def Let_def foldl_foldl_concat)

lemma tokens_coluna_append:
  "tokens_coluna (xs @ ys) c = tokens_coluna xs c @ tokens_coluna ys c"
  by (simp add: tokens_coluna_def col_data_def List.map_filter_def)

lemma contar_colunas_mesma:
  assumes "distinct cols"
  shows "mesma_coluna c (foldl (contar_coluna chunk) ac cols)
           (if c \<in> set cols then foldl (contar_item c) ac (tokens_coluna chunk c) else ac)"
  using assms
proof (induction cols arbitrary: ac)
  case Nil
  then show ?case by (simp add: mesma_coluna_refl)
next
  case (Cons d ds)
  let ?a1 = "contar_coluna chunk ac d"
  from Cons.prems have dd: "distinct ds" and nd: "d \<notin> set ds" by simp_all
  have ih: "mesma_coluna c (foldl (contar_coluna chunk) ?a1 ds)
              (if c \<in> set ds then foldl (contar_item c) ?a1 (tokens_coluna chunk c) else ?a1)"
    using dd by (rule Cons.IH)
  show ?case
  proof (cases "d = c")
    case True
    then have "?a1 = foldl (contar_item c) ac (tokens_coluna chunk c)"
      by (simp add: contar_coluna_tokens)
    with nd ih True show ?thesis by simp
  next
    case False
    have a1: "mesma_coluna c ?a1 ac"
      unfolding contar_coluna_tokens using False by (rule contar_itens_outra)
    show ?thesis
    proof (cases "c \<in> set ds")
      case True
      have st: "mesma_coluna c (foldl (contar_item c) ?a1 (tokens_coluna chunk c))
              (foldl (contar_item c) ac (tokens_coluna chunk c))"
        using a1 by (rule contar_itens_mesma)
      from ih True have "mesma_coluna c (foldl (contar_coluna chunk) ?a1 ds)
              (foldl (contar_item c) ?a1 (tokens_coluna chunk c))"
        by simp
      then have "mesma_coluna c (foldl (contar_coluna chunk) ?a1 ds)
              (foldl (contar_item c) ac (tokens_coluna chunk c))"
        using st by (rule mesma_coluna_trans)
      with True show ?thesis by simp
    next
      case nc: False
      from ih nc have "mesma_coluna c (foldl (contar_coluna chunk) ?a1 ds) ?a1" by simp
      then have "mesma_coluna c (foldl (contar_coluna chunk) ?a1 ds) ac"
        using a1 by (rule mesma_coluna_trans)
      with nc False show ?thesis by simp
    qed
  qed
qed

lemma processar_chunk_mesma:
  assumes "processar_chunk filtro kw cols ac chunk = Some ac'" and "distinct cols"
  shows "mesma_coluna c ac'
           (if c \<in> set cols
            then foldl (contar_item c) ac
                   (tokens_coluna (filter (linha_observada filtro kw) chunk) c)
            else ac)"
proof -
  let ?cp = "filter (linha_observada filtro kw) chunk"
  have "(?cp = [] \<and> ac' = ac) \<or> ac' = foldl (contar_coluna ?cp) ac cols"
    using assms(1) unfolding processar_chunk_def chunk_processar_observadas Let_def
    by (auto split: if_splits)
  then show ?thesis
  proof
    assume "?cp = [] \<and> ac' = ac"
    then show ?thesis
      by (simp add: tokens_coluna_def col_data_def List.map_filter_def mesma_coluna_refl)
  next
    assume "ac' = foldl (contar_coluna ?cp) ac cols"
    then show ?thesis using contar_colunas_mesma [OF assms(2)] by simp
  qed
qed

lemma para_cada_chunk_mesma:
  assumes "para_cada_chunk (processar_chunk filtro kw cols) ac chunks = Some ac'"
    and "distinct cols"
  shows "mesma_coluna c ac'
           (if c \<in> set cols
            then foldl (contar_item c) ac
                   (tokens_coluna (filter (linha_observada filtro kw) (concat chunks)) c)
            else ac)"
  using assms(1)
proof (induction chunks arbitrary: ac)
  case Nil
  then show ?case
    by (simp add: tokens_coluna_def col_data_def List.map_filter_def mesma_coluna_refl)
next
  case (Cons x xs)
  let ?obs = "filter (linha_observada filtro kw)"
  from Cons.prems obtain a where a: "processar_chunk filtro kw cols ac x = Some a"
    and r: "para_cada_chunk (processar_chunk filtro kw cols) a xs = Some ac'"
    by (auto split: option.splits)
  have s1: "mesma_coluna c a
              (if c \<in> set cols then foldl (contar_item c) ac (tokens_coluna (?obs x) c) else ac)"
    using a assms(2) by (rule processar_chunk_mesma)
  have s2: "mesma_coluna c ac'
              (if c \<in> set cols
               then foldl (contar_item c) a (tokens_coluna (?obs (concat xs)) c) else a)"
    using r by (rule Cons.IH)
  show ?case
  proof (cases "c \<in> set cols")
    case True
    from s1 True have "mesma_coluna c a (foldl (contar_item c) ac (tokens_coluna (?obs x) c))"
      by simp
    then have st: "mesma_coluna c (foldl (contar_item c) a (tokens_coluna (?obs (concat xs)) c))
            (foldl (contar_item c) (foldl (contar_item c) ac (tokens_coluna (?obs x) c))
               (tokens_coluna (?obs (concat xs)) c))"
      by (rule contar_itens_mesma)
    from s2 True have "mesma_coluna c ac'
            (foldl (contar_item c) a (tokens_coluna (?obs (concat xs)) c))"
      by simp
    then have "mesma_coluna c ac'
            (foldl (contar_item c) (foldl (contar_item c) ac (tokens_coluna (?obs x) c))
               (tokens_coluna (?obs (concat xs)) c))"
      using st by (rule mesma_coluna_trans)
    then show ?thesis using True by (simp add: tokens_coluna_append)
  next
    case False
    from s1 False have "mesma_coluna c a ac" by simp
    moreover from s2 False have "mesma_coluna c ac' a" by simp
    ultimately have "mesma_coluna c ac' ac" by (simp add: mesma_coluna_def)
    with False show ?thesis by simp
  qed
qed

lemma concat_chunks_of: "0 < n \<Longrightarrow> concat (chunks_of n xs) = xs"
proof (induction n xs rule: chunks_of.induct)
  case (1 n xs)
  show ?case
  proof (cases "xs = []")
    case True
    then show ?thesis by (simp add: chunks_of.simps)
  next
    case False
    with "1.prems" have "chunks_of n xs = take n xs # chunks_of n (drop n xs)"
      by (subst chunks_of.simps) simp
    moreover have "concat (chunks_of n (drop n xs)) = drop n xs"
      using "1.IH" "1.prems" False by simp
    ultimately show ?thesis by simp
  qed
qed

lemma acumulador_eqI:
  fixes ac ac' :: acumulador
  assumes "\<And>c. mesma_coluna c ac ac'"
  shows "ac = ac'"
proof -
  have "contadores ac = contadores ac'" and "sigilosos ac = sigilosos ac'"
    using assms by (auto simp: mesma_coluna_def)
  then show ?thesis by simp
qed

lemma varredura_independe_do_chunksize:
  assumes "para_cada_chunk (processar_chunk filtro kw cols) acumulador_inicial
             (chunks_of n rows) = Some ac"
    and "para_cada_chunk (processar_chunk filtro kw cols) acumulador_inicial
             (chunks_of n' rows) = Some ac'"
    and "distinct cols" and "0 < n" and "0 < n'"
  shows "ac = ac'"
proof (rule acumulador_eqI)
  fix c
  let ?ref = "if c \<in> set cols
              then foldl (contar_item c) acumulador_inicial
                     (tokens_coluna (filter (linha_observada filtro kw) rows) c)
              else acumulador_inicial"
  have "mesma_coluna c ac ?ref"
    using para_cada_chunk_mesma [OF assms(1,3), of c]
    unfolding concat_chunks_of [OF assms(4)] .
  moreover have "mesma_coluna c ac' ?ref"
    using para_cada_chunk_mesma [OF assms(2,3), of c]
    unfolding concat_chunks_of [OF assms(5)] .
  ultimately show "mesma_coluna c ac ac'" by (simp add: mesma_coluna_def)
qed

text \<open>
  When \<open>analisar_frequencias\<close> of \<open>gerar_relatorio_analise_cnj.py\<close> returns a result for
  two chunk sizes, on the same file and pairwise different requested columns, the two
  results are equal: the chunk size decides only whether the scan completes.
\<close>

lemma analisar_frequencias_independe_do_chunksize:
  assumes "analisar_frequencias ordenar n csv cols filtrar f kw = (msgs, Some res)"
    and "analisar_frequencias ordenar n' csv cols filtrar f kw = (msgs', Some res')"
    and "distinct cols"
  shows "res = res'"
proof -
  from assms(1) obtain h where h: "cabecalho csv = Some h"
    by (cases "cabecalho csv"; cases "existe csv") (simp_all add: analisar_frequencias_def)
  have e: "existe csv"
    using assms(1) by (cases "existe csv") (simp_all add: analisar_frequencias_def)
  have x: "filter (\<lambda>c. c \<in> set h) cols \<noteq> []"
  proof
    assume "filter (\<lambda>c. c \<in> set h) cols = []"
    then have "analisar_frequencias ordenar n csv cols filtrar f kw = ([NenhumaColunaAnalise], None)"
      using e h by (simp add: analisar_frequencias_def)
    with assms(1) show False by simp
  qed
  have n: "0 < n"
  proof (rule ccontr)
    assume "\<not> 0 < n"
    then have "snd (analisar_frequencias ordenar n csv cols filtrar f kw) = None"
      unfolding analisar_frequencias_unfold [OF e h x] by simp
    with assms(1) show False by simp
  qed
  have n': "0 < n'"
  proof (rule ccontr)
    assume "\<not> 0 < n'"
    then have "snd (analisar_frequencias ordenar n' csv cols filtrar f kw) = None"
      unfolding analisar_frequencias_unfold [OF e h x] by simp
    with assms(2) show False by simp
  qed
  from assms(1) h obtain ac where
    r: "res = montar_resultados ordenar ac (\<lambda>col. col \<in> set (filter (\<lambda>c. c \<in> set h) cols)) cols"
    and p: "para_cada_chunk
           (processar_chunk (if filtrar \<and> (\<exists>fc. f = Some fc \<and> fc \<in> set h) then f else None) kw
              (filter (\<lambda>c. c \<in> set h) cols))
           acumulador_inicial (chunks_of n (linhas csv)) = Some ac"
    by (rule analisar_frequencias_Some)
  from assms(2) h obtain ac' where
    r': "res' = montar_resultados ordenar ac' (\<lambda>col. col \<in> set (filter (\<lambda>c. c \<in> set h) cols)) cols"
    and p': "para_cada_chunk
           (processar_chunk (if filtrar \<and> (\<exists>fc. f = Some fc \<and> fc \<in> set h) then f else None) kw
              (filter (\<lambda>c. c \<in> set h) cols))
           acumulador_inicial (chunks_of n' (linhas csv)) = Some ac'"
    by (rule analisar_frequencias_Some)
  have "distinct (filter (\<lambda>c. c \<in> set h) cols)" using assms(3) by simp
  from varredura_independe_do_chunksize [OF p p' this n n'] have "ac = ac'" .
  with r r' show ?thesis by simp
qed

lemma chunks_of_single:
  assumes "xs \<noteq> []" and "length xs \<le> n"
  shows "chunks_of n xs = [xs]"
proof -
  have "0 < n" using assms by (cases xs) auto
  then have "chunks_of n xs = take n xs # chunks_of n (drop n xs)"
    using assms(1) by (subst chunks_of.simps) simp
  moreover have "chunks_of n (drop n xs) = []"
    using assms(2) by (subst chunks_of.simps) simp
  ultimately show ?thesis using assms(2) by simp
qed

lemma chunks_of_fonte_grande:
  "chunks_of 100000 (replicate 100000 linha_com_A @ [linha_sem_valor])
     = [replicate 100000 linha_com_A, [linha_sem_valor]]"
proof -
  have "chunks_of 100000 (replicate 100000 linha_com_A @ [linha_sem_valor])
          = replicate 100000 linha_com_A # chunks_of 100000 [linha_sem_valor]"
    by (subst chunks_of.simps) simp
  moreover have "chunks_of 100000 [linha_sem_valor] = [[linha_sem_valor]]"
    by (rule chunks_of_single) simp_all
  ultimately show ?thesis by simp
qed

lemma col_data_replicate:
  "col_data (replicate n linha_com_A) ''Polo ativo'' = replicate n ''{A}''"
  by (induction n) (simp_all add: col_data_def List.map_filter_def linha_com_A_def)

lemma col_data_sem_valor: "col_data [linha_sem_valor] ''Polo ativo'' = []"
  by (simp add: col_data_def List.map_filter_def linha_sem_valor_def)

lemma col_data_append: "col_data (xs @ ys) c = col_data xs c @ col_data ys c"
  by (simp add: col_data_def List.map_filter_def)

lemma tokens_fonte_grande:
  "tokens_coluna (replicate n linha_com_A @ [linha_sem_valor]) ''Polo ativo'' = replicate n ''A''"
proof -
  have "concat (map (\<lambda>v. parse_multi_valor (Some v)) (replicate m ''{A}'')) = replicate m ''A''" for m
    by (induction m) (simp_all add: parse_exemplos)
  then show ?thesis
    by (simp add: tokens_coluna_def col_data_append col_data_replicate col_data_sem_valor)
qed

lemma contar_A:
  "foldl (contar_item c) ac (replicate n ''A'')
     = ac\<lparr>contadores := (contadores ac)
             (c := foldl (\<lambda>cont item. counter_inc item cont) (contadores ac c) (replicate n ''A''))\<rparr>"
proof (induction n arbitrary: ac)
  case 0
  then show ?case by simp
next
  case (Suc n)
  have h: "contar_item c a ''A''
             = a\<lparr>contadores := (contadores a)(c := counter_inc ''A'' (contadores a c))\<rparr>" for a
    by (simp add: contar_item_def upper_strip_exemplos)
  have "(\<lambda>a. if a = c
              then foldl (\<lambda>cont item. counter_inc item cont)
                     (counter_inc ''A'' (contadores ac c)) (replicate n ''A'')
              else if a = c then counter_inc ''A'' (contadores ac c) else contadores ac a)
        = (\<lambda>a. if a = c
              then foldl (\<lambda>cont item. counter_inc item cont)
                     (counter_inc ''A'' (contadores ac c)) (replicate n ''A'')
              else contadores ac a)"
    by (rule ext) simp
  then show ?case by (simp add: Suc h)
qed

lemma counter_inc_A:
  "foldl (\<lambda>cont item. counter_inc item cont) [(''A'', m)] (replicate n ''A'') = [(''A'', m + n)]"
  by (induction n arbitrary: m) simp_all

lemma contagem_fonte_grande:
  "contadores (foldl (contar_item ''Polo ativo'') acumulador_inicial (replicate 100000 ''A''))
      ''Polo ativo'' = [(''A'', 100000)]
   \<and> sigilosos (foldl (contar_item ''Polo ativo'') acumulador_inicial (replicate 100000 ''A''))
      ''Polo ativo'' = 0"
proof -
  have "replicate 100000 ''A'' = ''A'' # replicate 99999 ''A''"
    by (simp add: replicate_Suc [symmetric] del: replicate_Suc)
  then have "foldl (\<lambda>cont item. counter_inc item cont) [] (replicate 100000 ''A'')
          = foldl (\<lambda>cont item. counter_inc item cont) [(''A'', 1)] (replicate 99999 ''A'')"
    by simp
  also have "\<dots> = [(''A'', 100000)]" by (simp add: counter_inc_A)
  finally show ?thesis by (simp add: contar_A acumulador_inicial_def)
qed

text \<open>
  Claim C6 fails on the code. The file \<open>fonte_grande\<close> has 100000 rows with the value
  \<open>{A}\<close> in the analysed column and a last row without a value there. Read in chunks of
  100000 rows, as \<open>CHUNKSIZE_ANALISE\<close> sets it, the last chunk binds no \<open>items_parsed\<close>,
  the \<open>del\<close> statement at the end of the loop body raises, and \<open>analisar_frequencias\<close>
  logs the unexpected error and returns \<open>None\<close>. Read in chunks of 100001 rows, the same
  file gives the count 100000 for \<open>A\<close>.
\<close>

theorem chunksize_changes_outcome:
  "fst (analisar_frequencias ordenar_desc 100000 fonte_grande [''Polo ativo''] False None [])
     = [ErroInesperado]
   \<and> consultar (snd (analisar_frequencias ordenar_desc 100000 fonte_grande
                       [''Polo ativo''] False None [])) ''Polo ativo''
     = None
   \<and> fst (analisar_frequencias ordenar_desc 100001 fonte_grande [''Polo ativo''] False None [])
     = []
   \<and> consultar (snd (analisar_frequencias ordenar_desc 100001 fonte_grande
                       [''Polo ativo''] False None [])) ''Polo ativo''
     = Some (Some \<lparr>contagens = Some [(''A'', 100000)], total_ocorrencias = 100000,
                    contagem_sigiloso = 0\<rparr>)"
proof -
  let ?rows = "replicate 100000 linha_com_A @ [linha_sem_valor]"
  have e: "existe fonte_grande" and h: "cabecalho fonte_grande = Some [''Polo ativo'', ''Tribunal'']"
    and l: "linhas fonte_grande = ?rows"
    by (simp_all add: fonte_grande_def)
  have x: "filter (\<lambda>c. c \<in> set [''Polo ativo'', ''Tribunal'']) [''Polo ativo''] \<noteq> []" by simp
  have xe: "filter (\<lambda>c. c \<in> set [''Polo ativo'', ''Tribunal'']) [''Polo ativo''] = [''Polo ativo'']"
    by simp
  note u = analisar_frequencias_unfold [OF e h x, of ordenar_desc _ False None "[]", unfolded xe l]
  have c1: "processar_chunk None [] [''Polo ativo''] a (replicate 100000 linha_com_A) \<noteq> None" for a
    by (rule processar_chunk_sem_filtro_ok) (simp_all add: linha_com_A_def)
  have c2: "processar_chunk None [] [''Polo ativo''] a [linha_sem_valor] = None" for a
    by (simp add: processar_chunk_def col_data_sem_valor)
  have p1: "para_cada_chunk (processar_chunk None [] [''Polo ativo'']) acumulador_inicial
              (chunks_of 100000 ?rows) = None"
  proof -
    from c1 obtain a where
      "processar_chunk None [] [''Polo ativo''] acumulador_inicial (replicate 100000 linha_com_A)
         = Some a"
      by blast
    then show ?thesis by (simp add: chunks_of_fonte_grande c2)
  qed
  have cd: "col_data ?rows ''Polo ativo'' \<noteq> []"
    by (simp add: col_data_append col_data_replicate)
  have p2: "para_cada_chunk (processar_chunk None [] [''Polo ativo'']) acumulador_inicial
              (chunks_of 100001 ?rows)
            = Some (foldl (contar_item ''Polo ativo'') acumulador_inicial (replicate 100000 ''A''))"
  proof -
    have "chunks_of 100001 ?rows = [?rows]" by (rule chunks_of_single) simp_all
    moreover have "processar_chunk None [] [''Polo ativo''] acumulador_inicial ?rows
            = Some (foldl (contar_item ''Polo ativo'') acumulador_inicial (replicate 100000 ''A''))"
      using cd by (simp add: processar_chunk_def contar_coluna_tokens tokens_fonte_grande)
    ultimately show ?thesis by simp
  qed
  have f: "finalizar ordenar_desc
             (foldl (contar_item ''Polo ativo'') acumulador_inicial (replicate 100000 ''A''))
             ''Polo ativo''
           = \<lparr>contagens = Some [(''A'', 100000)], total_ocorrencias = 100000,
              contagem_sigiloso = 0\<rparr>"
    using contagem_fonte_grande by (simp add: finalizar_def ordenar_desc_def)
  have r1: "analisar_frequencias ordenar_desc 100000 fonte_grande [''Polo ativo''] False None []
              = ([ErroInesperado], None)"
    by (simp add: u p1)
  have r2: "analisar_frequencias ordenar_desc 100001 fonte_grande [''Polo ativo''] False None []
              = ([], Some (montar_resultados ordenar_desc
                    (foldl (contar_item ''Polo ativo'') acumulador_inicial (replicate 100000 ''A''))
                    (\<lambda>col. col \<in> set [''Polo ativo'']) [''Polo ativo'']))"
    by (simp add: u p2)
  show ?thesis
    unfolding r1 r2 by (simp add: consultar_def montar_resultados_lookup f)
qed

section \<open>Properties of the summarizer\<close>

lemma percentual_exemplos:
  "percentual 2 4 = ''50.00%''"
  "percentual 1 4 = ''25.00%''"
  "str_int 1 = ''1''"
  by code_simp+

lemma formato_cem: "formato_2f (multiplicar (4503599627370496, - 52) 100) = ''100.00''"
  by code_simp

lemma dividir_mesmo:
  assumes "0 < c"
  shows "dividir c c = (4503599627370496, - 52)"
proof -
  have k1: "bits c - bits c - 53 = - 53" by simp
  have p1: "pow2 (- (- 53)) = 9007199254740992" "pow2 (- 53) = 1"
    by (simp_all add: pow2_def)
  have q1: "(c * 9007199254740992) div (c * 1) = 9007199254740992" using assms by simp
  have p2: "pow2 52 = 4503599627370496" "pow2 (- 52) = 1"
    by (simp_all add: pow2_def)
  have r: "arredondar_meio_par (c * 4503599627370496) c = 4503599627370496"
    using assms by (simp add: arredondar_meio_par_def Let_def)
  have c0: "c \<noteq> 0" using assms by simp
  show ?thesis
    unfolding dividir_def para_double_def Let_def k1 p1 q1
    using c0 by (simp add: p2 r)
qed

lemma percentual_mesmo: "0 < c \<Longrightarrow> percentual c c = ''100.00%''"
  by (simp add: percentual_def dividir_mesmo formato_cem)

lemma corpo_tabela_percentual:
  "row \<in> set (corpo_tabela d cont top_n)
     \<Longrightarrow> Percentual row = percentual (Contagem row) (int (total_ocorrencias d))"
  unfolding corpo_tabela_def Let_def by (auto split: if_splits)

lemma corpo_tabela_sigiloso:
  "0 < contagem_sigiloso d \<Longrightarrow> corpo_tabela d cont top_n \<noteq> []"
  unfolding corpo_tabela_def Let_def by simp

lemma formatar_tabela_analise_cnj_eq:
  "formatar_tabela_analise_cnj d top_n = formatar_tabela_analise d top_n"
proof (cases "contagens d")
  case None
  then show ?thesis by (simp add: formatar_tabela_analise_cnj_def formatar_tabela_analise_def)
next
  case (Some cont)
  have "(corpo_tabela d cont top_n \<noteq> [] \<or> 0 < contagem_sigiloso d)
          = (corpo_tabela d cont top_n \<noteq> [])"
    using corpo_tabela_sigiloso [of d cont top_n] by blast
  then show ?thesis
    using Some by (simp add: formatar_tabela_analise_cnj_def formatar_tabela_analise_def)
qed

lemma formatar_tabela_analise_eq:
  assumes "contagens d = Some cont" and "total_ocorrencias d \<noteq> 0"
  shows "formatar_tabela_analise d top_n =
           (if corpo_tabela d cont top_n = [] then None
            else Some (corpo_tabela d cont top_n @ [linha_total d]))"
  using assms by (simp add: formatar_tabela_analise_def Let_def)

lemma head_vazio:
  assumes "head top_n cont = []" and "cont \<noteq> []"
  shows "top_n < int (length cont)"
proof (cases "0 \<le> top_n")
  case True
  with assms have "nat top_n = 0" by (simp add: head_def)
  with True assms(2) show ?thesis by simp
next
  case False
  then show ?thesis by simp
qed

lemma corpo_tabela_consistente:
  assumes "sum_list (map snd cont) + contagem_sigiloso d = total_ocorrencias d"
    and "0 < total_ocorrencias d"
  shows "corpo_tabela d cont top_n \<noteq> []"
proof (cases "0 < contagem_sigiloso d")
  case True
  then show ?thesis by (rule corpo_tabela_sigiloso)
next
  case False
  then have s: "contagem_sigiloso d = 0" by simp
  with assms have t: "sum_list (map snd cont) = total_ocorrencias d" by simp
  with assms(2) have c: "cont \<noteq> []" by auto
  show ?thesis
  proof (cases "head top_n cont = []")
    case True
    then have "top_n < int (length cont)" using c by (rule head_vazio)
    then show ?thesis
      unfolding corpo_tabela_def Let_def using True s assms(2) by simp
  next
    case False
    then show ?thesis unfolding corpo_tabela_def Let_def by simp
  qed
qed

text \<open>
  Claim C3. For a field result with a positive total, every row above the total row of
  the table made by \<open>formatar_tabela_analise\<close> has as percentage the text of its count
  divided by \<open>total_ocorrencias\<close>, the grand total, times 100 with two decimals, and the
  last row is \<open>TOTAL GERAL\<close> with the total and \<open>100.00%\<close>. The function of
  \<open>gerar_relatorio_analise_cnj.py\<close> returns the same table as the one of
  \<open>relatorio_export.py\<close>. A table is returned whenever the counts and the confidential
  count add up to the total. For the distribution \<open>A: 2, B: 1\<close> with one confidential
  occurrence, a total of 4 and \<open>top_n = 1\<close> the rows are \<open>A\<close>, \<open>Outros (1 itens)\<close>,
  \<open>Sigiloso\<close> and \<open>TOTAL GERAL\<close> with the percentages 50.00, 25.00, 25.00 and 100.00.
\<close>

theorem percentuais_sobre_total_geral:
  assumes "0 < total_ocorrencias dados"
  shows "(\<forall>tab. formatar_tabela_analise dados top_n = Some tab \<longrightarrow>
            tab \<noteq> []
            \<and> last tab = \<lparr>Item = ''TOTAL GERAL'', Contagem = int (total_ocorrencias dados),
                          Percentual = ''100.00%''\<rparr>
            \<and> (\<forall>row \<in> set (butlast tab).
                  Percentual row = percentual (Contagem row) (int (total_ocorrencias dados))))
       \<and> formatar_tabela_analise_cnj dados top_n = formatar_tabela_analise dados top_n
       \<and> (\<forall>cont. contagens dados = Some cont
               \<and> sum_list (map snd cont) + contagem_sigiloso dados = total_ocorrencias dados
             \<longrightarrow> formatar_tabela_analise dados top_n \<noteq> None)
       \<and> formatar_tabela_analise
            \<lparr>contagens = Some [(''A'', 2), (''B'', 1)], total_ocorrencias = 4,
             contagem_sigiloso = 1\<rparr> 1
          = Some [\<lparr>Item = ''A'', Contagem = 2, Percentual = ''50.00%''\<rparr>,
                  \<lparr>Item = ''Outros (1 itens)'', Contagem = 1, Percentual = ''25.00%''\<rparr>,
                  \<lparr>Item = ''Sigiloso'', Contagem = 1, Percentual = ''25.00%''\<rparr>,
                  \<lparr>Item = ''TOTAL GERAL'', Contagem = 4, Percentual = ''100.00%''\<rparr>]"
proof (intro conjI allI impI)
  fix tab assume a: "formatar_tabela_analise dados top_n = Some tab"
  then obtain cont where c: "contagens dados = Some cont"
    by (cases "contagens dados") (simp_all add: formatar_tabela_analise_def)
  have t: "total_ocorrencias dados \<noteq> 0" using assms by simp
  from a have tab: "corpo_tabela dados cont top_n \<noteq> []"
    "tab = corpo_tabela dados cont top_n @ [linha_total dados]"
    unfolding formatar_tabela_analise_eq [OF c t] by (simp_all split: if_splits)
  show "tab \<noteq> []" using tab by simp
  show "last tab = \<lparr>Item = ''TOTAL GERAL'', Contagem = int (total_ocorrencias dados),
                          Percentual = ''100.00%''\<rparr>"
    using tab by (simp add: linha_total_def)
  show "\<forall>row \<in> set (butlast tab).
           Percentual row = percentual (Contagem row) (int (total_ocorrencias dados))"
    using tab corpo_tabela_percentual by simp
next
  show "formatar_tabela_analise_cnj dados top_n = formatar_tabela_analise dados top_n"
    by (rule formatar_tabela_analise_cnj_eq)
next
  fix cont
  assume a: "contagens dados = Some cont
               \<and> sum_list (map snd cont) + contagem_sigiloso dados = total_ocorrencias dados"
  then have "corpo_tabela dados cont top_n \<noteq> []"
    using assms by (intro corpo_tabela_consistente) simp_all
  moreover have "total_ocorrencias dados \<noteq> 0" using assms by simp
  ultimately show "formatar_tabela_analise dados top_n \<noteq> None"
    using a by (simp add: formatar_tabela_analise_eq)
next
  show "formatar_tabela_analise
            \<lparr>contagens = Some [(''A'', 2), (''B'', 1)], total_ocorrencias = 4,
             contagem_sigiloso = 1\<rparr> 1
          = Some [\<lparr>Item = ''A'', Contagem = 2, Percentual = ''50.00%''\<rparr>,
                  \<lparr>Item = ''Outros (1 itens)'', Contagem = 1, Percentual = ''25.00%''\<rparr>,
                  \<lparr>Item = ''Sigiloso'', Contagem = 1, Percentual = ''25.00%''\<rparr>,
                  \<lparr>Item = ''TOTAL GERAL'', Contagem = 4, Percentual = ''100.00%''\<rparr>]"
    by (simp add: formatar_tabela_analise_def corpo_tabela_def linha_total_def head_def Let_def
                  percentual_exemplos)
qed

theorem percentuais_sobre_total_geral_witness:
  "formatar_tabela_analise_cnj
     \<lparr>contagens = Some [(''A'', 2), (''B'', 1)], total_ocorrencias = 4, contagem_sigiloso = 1\<rparr> 1
   = Some [\<lparr>Item = ''A'', Contagem = 2, Percentual = ''50.00%''\<rparr>,
           \<lparr>Item = ''Outros (1 itens)'', Contagem = 1, Percentual = ''25.00%''\<rparr>,
           \<lparr>Item = ''Sigiloso'', Contagem = 1, Percentual = ''25.00%''\<rparr>,
           \<lparr>Item = ''TOTAL GERAL'', Contagem = 4, Percentual = ''100.00%''\<rparr>]"
proof -
  have h: "0 < total_ocorrencias
              \<lparr>contagens = Some [(''A'', 2), (''B'', 1)], total_ocorrencias = 4,
               contagem_sigiloso = 1\<rparr>"
    by simp
  from percentuais_sobre_total_geral [OF h, of 1] show ?thesis by simp
qed

text \<open>
  Claim C10. For a field result with an empty distribution and a positive confidential
  count equal to the total, both functions \<open>formatar_tabela_analise\<close> return exactly two
  rows, for every \<open>top_n\<close>: the row \<open>Sigiloso\<close> with the confidential count and \<open>100.00%\<close>,
  then the row \<open>TOTAL GERAL\<close>.
\<close>

theorem somente_sigiloso:
  assumes "contagens dados = Some []" and "0 < contagem_sigiloso dados"
    and "total_ocorrencias dados = contagem_sigiloso dados"
  shows "formatar_tabela_analise dados top_n
           = Some [\<lparr>Item = ''Sigiloso'', Contagem = int (contagem_sigiloso dados),
                    Percentual = ''100.00%''\<rparr>,
                   \<lparr>Item = ''TOTAL GERAL'', Contagem = int (contagem_sigiloso dados),
                    Percentual = ''100.00%''\<rparr>]
       \<and> formatar_tabela_analise_cnj dados top_n
           = Some [\<lparr>Item = ''Sigiloso'', Contagem = int (contagem_sigiloso dados),
                    Percentual = ''100.00%''\<rparr>,
                   \<lparr>Item = ''TOTAL GERAL'', Contagem = int (contagem_sigiloso dados),
                    Percentual = ''100.00%''\<rparr>]"
proof -
  have p: "percentual (int (contagem_sigiloso dados)) (int (contagem_sigiloso dados)) = ''100.00%''"
    using assms(2) by (simp add: percentual_mesmo)
  have c: "corpo_tabela dados [] top_n
             = [\<lparr>Item = ''Sigiloso'', Contagem = int (contagem_sigiloso dados),
                 Percentual = ''100.00%''\<rparr>]"
    unfolding corpo_tabela_def Let_def using assms(2,3) p by (simp add: head_def)
  have t: "total_ocorrencias dados \<noteq> 0" using assms(2,3) by simp
  have "formatar_tabela_analise dados top_n
           = Some [\<lparr>Item = ''Sigiloso'', Contagem = int (contagem_sigiloso dados),
                    Percentual = ''100.00%''\<rparr>,
                   \<lparr>Item = ''TOTAL GERAL'', Contagem = int (contagem_sigiloso dados),
                    Percentual = ''100.00%''\<rparr>]"
    unfolding formatar_tabela_analise_eq [OF assms(1) t] c
    by (simp add: linha_total_def assms(3))
  then show ?thesis by (simp add: formatar_tabela_analise_cnj_eq)
qed

theorem somente_sigiloso_witness:
  "formatar_tabela_analise
     \<lparr>contagens = Some [], total_ocorrencias = 3, contagem_sigiloso = 3\<rparr> 10
   = Some [\<lparr>Item = ''Sigiloso'', Contagem = 3, Percentual = ''100.00%''\<rparr>,
           \<lparr>Item = ''TOTAL GERAL'', Contagem = 3, Percentual = ''100.00%''\<rparr>]"
proof -
  have "contagens \<lparr>contagens = Some [], total_ocorrencias = 3, contagem_sigiloso = 3\<rparr> = Some []"
    and "0 < contagem_sigiloso \<lparr>contagens = Some [], total_ocorrencias = 3, contagem_sigiloso = 3\<rparr>"
    and "total_ocorrencias \<lparr>contagens = Some [], total_ocorrencias = 3, contagem_sigiloso = 3\<rparr>
           = contagem_sigiloso \<lparr>contagens = Some [], total_ocorrencias = 3, contagem_sigiloso = 3\<rparr>"
    by simp_all
  from somente_sigiloso [OF this, of 10] show ?thesis by simp
qed

end
